theory Spec2Isabelle
  imports Main "HOL-Library.Char_ord" "HOL-Library.List_Lexorder" "HOL-Library.Multiset"
begin

section \<open>Data model\<close>

text \<open>
  The repository holds three programs of the same tool:
  \<^item> \<open>src/main.go\<close>, first program: the methods of \<open>type SSMManager\<close> (flags \<open>prefix\<close>,
    \<open>quiet\<close>; writes go through \<open>updateParameterWithRetry\<close>). Its definitions carry the
    prefix \<open>SSMManager_\<close>.
  \<^item> \<open>src/main.go\<close>, second program: one \<open>main\<close> reading from standard input,
    \<open>updateParameter(svc, name, value)\<close>. Its definitions carry the prefix \<open>basic_\<close>.
  \<^item> \<open>src/unnamed/part_001\<close>: flags \<open>prefix\<close>, \<open>debug\<close>, \<open>secure\<close>; \<open>latestParam\<close> is a local
    variable of \<open>main\<close>. Its definitions keep the names of the source.

  Go strings are byte strings: \<open>string\<close> here is a list of bytes, compared byte by byte
  (\<open>Char_ord\<close>) and lexicographically (\<open>List_Lexorder\<close>), as Go's \<open><\<close> on strings does.
\<close>

text \<open>\<open>ssm.Parameter\<close>, the three fields the programs read. Its kind is the string the
  service uses: \<open>String\<close>, \<open>StringList\<close> or \<open>SecureString\<close>.\<close>

record parameter =
  Name :: string
  Value :: string
  Type :: string

text \<open>\<open>ssm.PutParameterInput\<close> and \<open>ssm.GetParametersByPathInput\<close>, as the programs fill them.\<close>

record PutParameterInput =
  put_Name :: string
  put_Value :: string
  put_Type :: string
  put_Overwrite :: bool

record GetParametersByPathInput =
  get_Path :: string
  get_Recursive :: bool
  get_WithDecryption :: bool
  get_NextToken :: "string option"

text \<open>Go errors are values with a message. The sentinel errors the programs compare with
  \<open>==\<close> are constructors of their own; \<open>fmt.Errorf\<close> builds a new error from its message.\<close>

datatype error =
    ErrInterrupt
  | ErrEOF
  | RlInterrupt
  | IoEOF
  | AwsError string
  | Errorf string

fun Error :: "error \<Rightarrow> string" where
  "Error ErrInterrupt = ''^C''"
| "Error ErrEOF = ''^D''"
| "Error RlInterrupt = ''Interrupt''"
| "Error IoEOF = ''EOF''"
| "Error (AwsError msg) = msg"
| "Error (Errorf msg) = msg"

section \<open>The Go library functions the programs call\<close>

definition NL :: string where
  "NL = [CHR 0x0A]"

fun HasPrefix :: "string \<Rightarrow> string \<Rightarrow> bool" where
  "HasPrefix s [] = True"
| "HasPrefix [] (p # ps) = False"
| "HasPrefix (c # cs) (p # ps) = (c = p \<and> HasPrefix cs ps)"

definition HasSuffix :: "string \<Rightarrow> string \<Rightarrow> bool" where
  "HasSuffix s suffix = HasPrefix (rev s) (rev suffix)"

definition TrimPrefix :: "string \<Rightarrow> string \<Rightarrow> string" where
  "TrimPrefix s p = (if HasPrefix s p then drop (length p) s else s)"

text \<open>\<open>strings.Index\<close>: the position of the first occurrence of \<open>sep\<close>; Go's \<open>-1\<close> is
  \<open>None\<close>.\<close>

fun Index :: "string \<Rightarrow> string \<Rightarrow> nat option" where
  "Index [] sep = (if sep = [] then Some 0 else None)"
| "Index (c # cs) sep =
     (if HasPrefix (c # cs) sep then Some 0 else map_option Suc (Index cs sep))"

text \<open>\<open>strings.SplitN(s, sep, 2)\<close> for a separator that is not empty: \<open>s\<close> cut at the first
  occurrence of \<open>sep\<close>, or \<open>s\<close> alone. The result is never empty, so \<open>[0]\<close> is its head.\<close>

definition SplitN2 :: "string \<Rightarrow> string \<Rightarrow> string list" where
  "SplitN2 s sep =
     (case Index s sep of
        None \<Rightarrow> [s]
      | Some i \<Rightarrow> [take i s, drop (i + length sep) s])"

text \<open>\<open>strings.Split(s, sep)\<close> for a separator of one byte. The result is never empty
  (\<open>Split("", "/")\<close> is one empty string), so \<open>name[len(name)-1]\<close> is its last element.\<close>

fun Split :: "string \<Rightarrow> char \<Rightarrow> string list" where
  "Split [] sep = [[]]"
| "Split (c # cs) sep =
     (if c = sep then [] # Split cs sep
      else (case Split cs sep of
              [] \<Rightarrow> [[c]]
            | x # xs \<Rightarrow> (c # x) # xs))"

text \<open>\<open>strings.TrimSpace\<close> removes leading and trailing white space as Unicode defines it
  (\<open>unicode.IsSpace\<close>); the list holds the UTF-8 encodings of those code points.\<close>

definition spaces :: "string list" where
  "spaces =
     [[CHR 0x09], [CHR 0x0A], [CHR 0x0B], [CHR 0x0C], [CHR 0x0D], [CHR 0x20],
      [CHR 0xC2, CHR 0x85], [CHR 0xC2, CHR 0xA0],
      [CHR 0xE1, CHR 0x9A, CHR 0x80],
      [CHR 0xE2, CHR 0x80, CHR 0x80], [CHR 0xE2, CHR 0x80, CHR 0x81],
      [CHR 0xE2, CHR 0x80, CHR 0x82], [CHR 0xE2, CHR 0x80, CHR 0x83],
      [CHR 0xE2, CHR 0x80, CHR 0x84], [CHR 0xE2, CHR 0x80, CHR 0x85],
      [CHR 0xE2, CHR 0x80, CHR 0x86], [CHR 0xE2, CHR 0x80, CHR 0x87],
      [CHR 0xE2, CHR 0x80, CHR 0x88], [CHR 0xE2, CHR 0x80, CHR 0x89],
      [CHR 0xE2, CHR 0x80, CHR 0x8A],
      [CHR 0xE2, CHR 0x80, CHR 0xA8], [CHR 0xE2, CHR 0x80, CHR 0xA9],
      [CHR 0xE2, CHR 0x80, CHR 0xAF],
      [CHR 0xE2, CHR 0x81, CHR 0x9F],
      [CHR 0xE3, CHR 0x80, CHR 0x80]]"

fun trimLeft :: "string list \<Rightarrow> string \<Rightarrow> string" where
  "trimLeft cutset [] = []"
| "trimLeft cutset (c # cs) =
     (case find (HasPrefix (c # cs)) cutset of
        None \<Rightarrow> c # cs
      | Some p \<Rightarrow> trimLeft cutset (drop (length p - 1) cs))"

definition TrimSpace :: "string \<Rightarrow> string" where
  "TrimSpace s = rev (trimLeft (map rev spaces) (rev (trimLeft spaces s)))"

text \<open>\<open>%d\<close> of \<open>fmt\<close> for a number that is not negative.\<close>

fun itoa :: "nat \<Rightarrow> string" where
  "itoa n =
     (if n < 10 then [''0123456789'' ! n]
      else itoa (n div 10) @ [''0123456789'' ! (n mod 10)])"

declare itoa.simps [simp del]

text \<open>\<open>sort.Slice(parameters, func(i, j) { return *parameters[i].Name < *parameters[j].Name })\<close>:
  the slice rearranged in ascending order of \<open>Name\<close>. Go sorts a slice of at most 12
  elements by insertion, which keeps the order of entries with equal names, as the model
  does; for a longer slice Go leaves the order of entries with equal names open, and the
  model keeps it. When the names are distinct the order is determined: every rearrangement
  in ascending order is the result of the model (lemma \<open>sortByName_unique\<close>).\<close>

definition sortByName :: "parameter list \<Rightarrow> parameter list" where
  "sortByName parameters = sort_key Name parameters"

section \<open>The world outside the programs\<close>

text \<open>
  The service, the terminal and the clock are outside the repository. The programs reach
  them through calls; the model threads a \<open>world\<close> through every call and records each
  call in \<open>trace\<close>, in order.
  \<^item> \<open>responses\<close>: what successive \<open>GetParametersByPath\<close> calls answer, an error or a page
    with its continuation token. Any paging and any staleness of reads is a script. When
    the script is used up the call fails.
  \<^item> \<open>store\<close>: the parameters the service holds, value and kind by name. \<open>PutParameter\<close>
    with \<open>Overwrite\<close> unset refuses a name that exists; otherwise it stores the entry.
  \<^item> \<open>faults\<close>: the transport outcome of successive \<open>PutParameter\<close> calls, \<open>Some\<close> an error
    or \<open>None\<close>; when it is used up no further fault occurs.
  \<^item> \<open>rl_fault\<close>: what \<open>readline.NewEx\<close> returns.
  \<^item> \<open>keys\<close>: what the user does at successive prompts; when it is used up the input has
    ended. A key that does not fit the prompt (a pick at a line prompt, a line or a pick
    out of range at a menu) counts as the end of the input.
\<close>

datatype key = Enter string | Pick nat | CtrlC | CtrlD

datatype event =
    Get GetParametersByPathInput
  | Put PutParameterInput
  | Sleep nat
  | Print string
  | Log string

record world =
  responses :: "(error + parameter list \<times> string option) list"
  store :: "string \<rightharpoonup> string \<times> string"
  faults :: "error option list"
  rl_fault :: "error option"
  keys :: "key list"
  trace :: "event list"

definition emit :: "event \<Rightarrow> world \<Rightarrow> world" where
  "emit e w = w\<lparr>trace := trace w @ [e]\<rparr>"

text \<open>\<open>fmt.Print\<close>, \<open>fmt.Printf\<close>, \<open>fmt.Println\<close> (the text with its newline) and
  \<open>log.Printf\<close> (the message; the logger adds the time and the newline).\<close>

definition print :: "string \<Rightarrow> world \<Rightarrow> world" where
  "print s w = emit (Print s) w"

definition log_Printf :: "string \<Rightarrow> world \<Rightarrow> world" where
  "log_Printf s w = emit (Log s) w"

text \<open>\<open>time.Sleep\<close>, the duration in milliseconds.\<close>

definition time_Sleep :: "nat \<Rightarrow> world \<Rightarrow> world" where
  "time_Sleep ms w = emit (Sleep ms) w"

definition svc_GetParametersByPath ::
  "GetParametersByPathInput \<Rightarrow> world \<Rightarrow> (error + parameter list \<times> string option) \<times> world" where
  "svc_GetParametersByPath input w =
     (case responses w of
        [] \<Rightarrow> (Inl (AwsError ''RequestError: send request failed''), emit (Get input) w)
      | r # rs \<Rightarrow> (r, emit (Get input) (w\<lparr>responses := rs\<rparr>)))"

definition svc_PutParameter :: "PutParameterInput \<Rightarrow> world \<Rightarrow> error option \<times> world" where
  "svc_PutParameter input w =
     (let w1 = emit (Put input) (w\<lparr>faults := tl (faults w)\<rparr>) in
      case (case faults w of [] \<Rightarrow> None | f # fs \<Rightarrow> f) of
        Some err \<Rightarrow> (Some err, w1)
      | None \<Rightarrow>
          (if store w (put_Name input) \<noteq> None \<and> \<not> put_Overwrite input
           then (Some (AwsError ''ParameterAlreadyExists: The parameter already exists.''), w1)
           else (None, w1\<lparr>store := (store w)(put_Name input \<mapsto> (put_Value input, put_Type input))\<rparr>)))"

definition next_key :: "world \<Rightarrow> key \<times> world" where
  "next_key w = (case keys w of [] \<Rightarrow> (CtrlD, w) | k # ks \<Rightarrow> (k, w\<lparr>keys := ks\<rparr>))"

text \<open>\<open>promptui.Prompt.Run\<close>: the line the user enters, \<open>ErrInterrupt\<close> on Ctrl+C,
  \<open>ErrEOF\<close> when the input ends.\<close>

definition Prompt_Run :: "world \<Rightarrow> (error + string) \<times> world" where
  "Prompt_Run w =
     (case next_key w of
        (Enter s, w') \<Rightarrow> (Inr s, w')
      | (CtrlC, w') \<Rightarrow> (Inl ErrInterrupt, w')
      | (_, w') \<Rightarrow> (Inl ErrEOF, w'))"

text \<open>\<open>promptui.Select.Run\<close>: the user picks one of the rows; the widget returns the
  position of the row picked and its text. It cannot return a row that is not there.\<close>

definition Select_Run :: "string list \<Rightarrow> world \<Rightarrow> (error + nat \<times> string) \<times> world" where
  "Select_Run items w =
     (case next_key w of
        (Pick i, w') \<Rightarrow>
          (if i < length items then (Inr (i, items ! i), w')
           else (Inl ErrEOF, w'))
      | (CtrlC, w') \<Rightarrow> (Inl ErrInterrupt, w')
      | (_, w') \<Rightarrow> (Inl ErrEOF, w'))"

text \<open>\<open>readline.NewEx\<close> and \<open>ReadlineWithDefault\<close>: the line is filled with the default
  and the user edits it. \<open>Enter\<close> carries the line as the user leaves it; Ctrl+C gives
  \<open>readline.ErrInterrupt\<close>; Ctrl+D gives \<open>io.EOF\<close> on an empty line, and on a line that is
  not empty it deletes the character at the cursor (none, the cursor being at the end of
  the default) and the read goes on; the end of the input gives \<open>io.EOF\<close>.\<close>

fun readline_keys :: "string \<Rightarrow> key list \<Rightarrow> (error + string) \<times> key list" where
  "readline_keys what [] = (Inl IoEOF, [])"
| "readline_keys what (Enter s # ks) = (Inr s, ks)"
| "readline_keys what (CtrlC # ks) = (Inl RlInterrupt, ks)"
| "readline_keys what (CtrlD # ks) =
     (if what = [] then (Inl IoEOF, ks) else readline_keys what ks)"
| "readline_keys what (Pick i # ks) = (Inl IoEOF, ks)"

definition readline_NewEx :: "world \<Rightarrow> error option" where
  "readline_NewEx w = rl_fault w"

definition ReadlineWithDefault :: "string \<Rightarrow> world \<Rightarrow> (error + string) \<times> world" where
  "ReadlineWithDefault what w =
     (case readline_keys what (keys w) of (r, ks) \<Rightarrow> (r, w\<lparr>keys := ks\<rparr>))"

section \<open>What the three programs share\<close>

text \<open>The paging loop of \<open>fetchParameters\<close>, the same text in the three programs:
  pages are appended until a page comes without \<open>NextToken\<close>; an error ends the loop with
  no parameters.\<close>

function fetch_pages ::
  "string \<Rightarrow> string option \<Rightarrow> parameter list \<Rightarrow> world \<Rightarrow> (error + parameter list) \<times> world" where
  "fetch_pages prefix nextToken parameters w =
     (case svc_GetParametersByPath
             \<lparr>get_Path = prefix, get_Recursive = False, get_WithDecryption = True,
              get_NextToken = nextToken\<rparr> w of
        (Inl err, w') \<Rightarrow> (Inl err, w')
      | (Inr (page, None), w') \<Rightarrow> (Inr (parameters @ page), w')
      | (Inr (page, Some token), w') \<Rightarrow> fetch_pages prefix (Some token) (parameters @ page) w')"
  by pat_completeness auto
termination
  by (relation "measure (\<lambda>(prefix, nextToken, parameters, w). length (responses w))")
     (auto simp: svc_GetParametersByPath_def emit_def split: list.splits)

declare fetch_pages.simps [simp del]

text \<open>\<open>// Update parameters with the latest param if it exists\<close>: the first parameter
  with the name of \<open>latestParam\<close> is replaced by it (the loop breaks there).\<close>

fun replaceFirst :: "parameter \<Rightarrow> parameter list \<Rightarrow> parameter list" where
  "replaceFirst latest [] = []"
| "replaceFirst latest (param # params) =
     (if Name param = Name latest then latest # params
      else param # replaceFirst latest params)"

definition updateWithLatest :: "parameter option \<Rightarrow> parameter list \<Rightarrow> parameter list" where
  "updateWithLatest latestParam params =
     (case latestParam of None \<Rightarrow> params | Some latest \<Rightarrow> replaceFirst latest params)"

definition ensureTrailingSlash :: "string \<Rightarrow> string" where
  "ensureTrailingSlash s = (if \<not> HasSuffix s ''/'' then s @ ''/'' else s)"

section \<open>The program of src/unnamed/part_001\<close>

text \<open>How an iteration of the loop of \<open>main\<close> ends: \<open>continue\<close> (or the end of the loop
  body), \<open>return\<close>, a panic, or the end of the process by the interrupt signal.\<close>

datatype control = Continue | Return | Panic | Killed

definition fetchParameters :: "string \<Rightarrow> world \<Rightarrow> (error + parameter list) \<times> world" where
  "fetchParameters prefix w = fetch_pages prefix None [] w"

fun formatParameters :: "parameter list \<Rightarrow> bool \<Rightarrow> string list" where
  "formatParameters [] secure = []"
| "formatParameters (param # params) secure =
     (let value = (if secure \<and> Type param = ''SecureString'' then ''******'' else Value param);
          name = Split (Name param) CHR ''/''
      in (last name @ '' = '' @ value) # formatParameters params secure)"

definition updateParameter :: "string \<Rightarrow> string \<Rightarrow> string \<Rightarrow> world \<Rightarrow> error option \<times> world" where
  "updateParameter name value paramType w =
     svc_PutParameter
       \<lparr>put_Name = name, put_Value = value, put_Type = paramType, put_Overwrite = True\<rparr> w"

definition createNewParameter :: "string \<Rightarrow> bool \<Rightarrow> world \<Rightarrow> error option \<times> world" where
  "createNewParameter prefix quiet w =
     (case Prompt_Run w of
        (Inl err, w1) \<Rightarrow> (Some (Errorf (''name prompt failed: '' @ Error err)), w1)
      | (Inr name, w1) \<Rightarrow>
          (case Prompt_Run w1 of
             (Inl err, w2) \<Rightarrow> (Some (Errorf (''value prompt failed: '' @ Error err)), w2)
           | (Inr value, w2) \<Rightarrow>
               (case Select_Run [''String'', ''StringList'', ''SecureString''] w2 of
                  (Inl err, w3) \<Rightarrow> (Some (Errorf (''type prompt failed: '' @ Error err)), w3)
                | (Inr (i, paramType), w3) \<Rightarrow>
                    (let fullName = prefix @ name in
                     case svc_PutParameter
                            \<lparr>put_Name = fullName, put_Value = value, put_Type = paramType,
                             put_Overwrite = False\<rparr> w3 of
                       (Some err, w4) \<Rightarrow>
                         (Some (Errorf (''failed to create parameter: '' @ Error err)), w4)
                     | (None, w4) \<Rightarrow>
                         (None, if \<not> quiet
                                then print (''Parameter created successfully.'' @ NL) w4
                                else w4)))))"

text \<open>The loop body of \<open>main\<close> from \<open>// Extract parameter name from result\<close> on: the edit
  of the parameter picked in the menu. \<open>params[index-1]\<close> panics out of range.\<close>

definition main_edit ::
  "string \<Rightarrow> bool \<Rightarrow> bool \<Rightarrow> parameter option \<Rightarrow> parameter list \<Rightarrow> nat \<Rightarrow> string \<Rightarrow> world
     \<Rightarrow> control \<times> parameter option \<times> world" where
  "main_edit prefix debugFlag secureFlag latestParam params index result w =
     (let paramName = prefix @ hd (SplitN2 result '' = '') in
      if \<not> index - 1 < length params then (Panic, latestParam, w)
      else
        (let selected = params ! (index - 1);
             currentValue = (if secureFlag then [] else Value selected);
             w1 = (if debugFlag
                   then (if secureFlag then print (''Current value: ******'' @ NL) w
                         else print (''Current value: '' @ currentValue @ NL) w)
                   else w)
         in case readline_NewEx w1 of
              Some err \<Rightarrow> (Panic, latestParam, w1)
            | None \<Rightarrow>
                (case ReadlineWithDefault currentValue w1 of
                   (Inl err, w2) \<Rightarrow>
                     (if err = RlInterrupt
                      then (Continue, latestParam,
                            if debugFlag then print (NL @ ''Update cancelled.'' @ NL) w2 else w2)
                      else (Return, latestParam, print (''Input failed '' @ Error err @ NL) w2))
                 | (Inr line, w2) \<Rightarrow>
                     (let newValue = TrimSpace line in
                      if newValue = [] \<or> newValue = currentValue
                      then (Continue, latestParam,
                            if debugFlag then print (''No changes made.'' @ NL) w2 else w2)
                      else
                        (case updateParameter paramName newValue (Type selected) w2 of
                           (Some err, w3) \<Rightarrow>
                             (Continue, latestParam,
                              print (''Error updating parameter: '' @ Error err @ NL) w3)
                         | (None, w3) \<Rightarrow>
                             (Continue,
                              Some \<lparr>Name = paramName, Value = newValue, Type = Type selected\<rparr>,
                              if debugFlag
                              then print (''Parameter updated successfully.'' @ NL) w3
                              else w3))))))"

text \<open>The loop body of \<open>main\<close> from \<open>items := append(...)\<close> on: the menu over the
  listing \<open>params\<close>, then the create or the edit. The \<open>Searcher\<close> and the templates of the
  menu only change what the widget shows.\<close>

definition main_select ::
  "string \<Rightarrow> bool \<Rightarrow> bool \<Rightarrow> parameter option \<Rightarrow> parameter list \<Rightarrow> world
     \<Rightarrow> control \<times> parameter option \<times> world" where
  "main_select prefix debugFlag secureFlag latestParam params w1 =
     (let items = ''Create new variable'' # formatParameters params secureFlag
      in case Select_Run items w1 of
           (Inl err, w2) \<Rightarrow>
             (if err = ErrInterrupt
              then (Return, latestParam, print (NL @ ''Quitting...'' @ NL) w2)
              else (Return, latestParam, print (''Prompt failed '' @ Error err @ NL) w2))
         | (Inr (index, result), w2) \<Rightarrow>
             (if index = 0
              then (case createNewParameter prefix debugFlag w2 of
                      (Some err, w3) \<Rightarrow>
                        (Continue, latestParam,
                         print (''Error creating parameter: '' @ Error err @ NL) w3)
                    | (None, w3) \<Rightarrow> (Continue, latestParam, w3))
              else main_edit prefix debugFlag secureFlag latestParam params index result w2))"

text \<open>One iteration of the loop of \<open>main\<close>: the listing is fetched, reconciled with
  \<open>latestParam\<close>, sorted, and handed to the menu.\<close>

definition main_iteration ::
  "string \<Rightarrow> bool \<Rightarrow> bool \<Rightarrow> parameter option \<Rightarrow> world \<Rightarrow> control \<times> parameter option \<times> world" where
  "main_iteration prefix debugFlag secureFlag latestParam w =
     (case fetchParameters prefix w of
        (Inl err, w1) \<Rightarrow>
          (Return, latestParam, print (''Error fetching parameters: '' @ Error err @ NL) w1)
      | (Inr fetched, w1) \<Rightarrow>
          (let params = sortByName (updateWithLatest latestParam fetched)
           in main_select prefix debugFlag secureFlag latestParam params w1))"

text \<open>The loop \<open>for { ... }\<close> of \<open>main\<close> has no bound; \<open>fuel\<close> bounds the iterations of the
  model, and \<open>None\<close> is a loop that has not ended within them.\<close>

fun main_loop ::
  "nat \<Rightarrow> string \<Rightarrow> bool \<Rightarrow> bool \<Rightarrow> parameter option \<Rightarrow> world \<Rightarrow> (control \<times> world) option" where
  "main_loop 0 prefix debugFlag secureFlag latestParam w = None"
| "main_loop (Suc fuel) prefix debugFlag secureFlag latestParam w =
     (case main_iteration prefix debugFlag secureFlag latestParam w of
        (Continue, latestParam', w') \<Rightarrow> main_loop fuel prefix debugFlag secureFlag latestParam' w'
      | (c, latestParam', w') \<Rightarrow> Some (c, w'))"

definition main :: "nat \<Rightarrow> string \<Rightarrow> bool \<Rightarrow> bool \<Rightarrow> world \<Rightarrow> (control \<times> world) option" where
  "main fuel prefixFlag debugFlag secureFlag w =
     (case (if prefixFlag \<noteq> [] then (Inr prefixFlag, w) else Prompt_Run w) of
        (Inl err, w1) \<Rightarrow> Some (Return, print (''Prompt failed '' @ Error err @ NL) w1)
      | (Inr prefix, w1) \<Rightarrow>
          main_loop fuel (if \<not> HasSuffix prefix ''/'' then prefix @ ''/'' else prefix)
            debugFlag secureFlag None w1)"

section \<open>The first program of src/main.go: type SSMManager\<close>

text \<open>\<open>maxRetries = 5\<close> and \<open>retryDelay = 200 * time.Millisecond\<close>, in milliseconds.\<close>

definition maxRetries :: nat where
  "maxRetries = 5"

definition retryDelay :: nat where
  "retryDelay = 200"

text \<open>The fields of \<open>SSMManager\<close> but \<open>svc\<close>, which is the world.\<close>

record SSMManager =
  m_prefix :: string
  m_latestParam :: "parameter option"
  m_quiet :: bool

text \<open>\<open>log.Fatalf\<close> ends the process: \<open>Inl\<close>.\<close>

definition SSMManager_getPrefix :: "string \<Rightarrow> world \<Rightarrow> (error + string) \<times> world" where
  "SSMManager_getPrefix flagValue w =
     (if flagValue \<noteq> [] then (Inr (ensureTrailingSlash flagValue), w)
      else (case Prompt_Run w of
              (Inl err, w') \<Rightarrow> (Inl err, log_Printf (''Prompt failed: '' @ Error err) w')
            | (Inr result, w') \<Rightarrow> (Inr (ensureTrailingSlash result), w')))"

definition SSMManager_fetchParameters ::
  "SSMManager \<Rightarrow> world \<Rightarrow> (error + parameter list) \<times> world" where
  "SSMManager_fetchParameters m w =
     (case fetch_pages (m_prefix m) None [] w of
        (Inl err, w') \<Rightarrow> (Inl err, w')
      | (Inr parameters, w') \<Rightarrow>
          (Inr (sortByName (updateWithLatest (m_latestParam m) parameters)), w'))"

fun SSMManager_formatParameters :: "SSMManager \<Rightarrow> parameter list \<Rightarrow> string list" where
  "SSMManager_formatParameters m [] = []"
| "SSMManager_formatParameters m (param # params) =
     (let name = TrimPrefix (Name param) (m_prefix m)
      in (name @ '' = '' @ Value param) # SSMManager_formatParameters m params)"

definition SSMManager_promptForAction ::
  "SSMManager \<Rightarrow> parameter list \<Rightarrow> world \<Rightarrow> (error + string) \<times> world" where
  "SSMManager_promptForAction m params w =
     (let items = (if length params = 0 then [''Create new variable'', ''Quit'']
                   else (''Create new variable'' # SSMManager_formatParameters m params) @ [''Quit''])
      in case Select_Run items w of
           (Inl err, w') \<Rightarrow> (Inl err, w')
         | (Inr (index, result), w') \<Rightarrow>
             (if result = ''Quit'' then (Inr ''quit'', w')
              else if index = 0 then (Inr ''create'', w')
              else (Inr result, w')))"

definition SSMManager_promptForInput :: "SSMManager \<Rightarrow> string \<Rightarrow> world \<Rightarrow> (error + string) \<times> world" where
  "SSMManager_promptForInput m label w = Prompt_Run w"

definition SSMManager_promptForParamType :: "SSMManager \<Rightarrow> world \<Rightarrow> (error + string) \<times> world" where
  "SSMManager_promptForParamType m w =
     (case Select_Run [''String'', ''StringList'', ''SecureString''] w of
        (Inl err, w') \<Rightarrow> (Inl err, w')
      | (Inr (i, result), w') \<Rightarrow> (Inr result, w'))"

definition SSMManager_promptForNewValue ::
  "SSMManager \<Rightarrow> string \<Rightarrow> world \<Rightarrow> (error + string) \<times> world" where
  "SSMManager_promptForNewValue m currentValue w =
     (case readline_NewEx w of
        Some err \<Rightarrow> (Inl err, w)
      | None \<Rightarrow>
          (case ReadlineWithDefault currentValue w of
             (Inl err, w') \<Rightarrow>
               (if err = RlInterrupt then (Inl (Errorf ''update cancelled''), w')
                else (Inl err, w'))
           | (Inr newValue, w') \<Rightarrow> (Inr (TrimSpace newValue), w')))"

text \<open>The loop \<open>for i := 0; i < maxRetries; i++\<close> of \<open>updateParameterWithRetry\<close>, from \<open>i\<close>
  on.\<close>

function updateParameterWithRetry_loop ::
  "nat \<Rightarrow> string \<Rightarrow> string \<Rightarrow> string \<Rightarrow> world \<Rightarrow> error option \<times> world" where
  "updateParameterWithRetry_loop i name value paramType w =
     (if i < maxRetries
      then (case svc_PutParameter
                   \<lparr>put_Name = name, put_Value = value, put_Type = paramType,
                    put_Overwrite = True\<rparr> w of
              (None, w') \<Rightarrow> (None, w')
            | (Some err, w') \<Rightarrow>
                updateParameterWithRetry_loop (i + 1) name value paramType
                  (time_Sleep retryDelay w'))
      else (Some (Errorf (''failed to update parameter after '' @ itoa maxRetries @ '' attempts'')),
            w))"
  by pat_completeness auto
termination
  by (relation "measure (\<lambda>(i, name, value, paramType, w). maxRetries - i)") auto

declare updateParameterWithRetry_loop.simps [simp del]

definition SSMManager_updateParameterWithRetry ::
  "SSMManager \<Rightarrow> string \<Rightarrow> string \<Rightarrow> string \<Rightarrow> world \<Rightarrow> error option \<times> world" where
  "SSMManager_updateParameterWithRetry m name value paramType w =
     updateParameterWithRetry_loop 0 name value paramType w"

definition SSMManager_createNewParameter :: "SSMManager \<Rightarrow> world \<Rightarrow> error option \<times> world" where
  "SSMManager_createNewParameter m w =
     (case SSMManager_promptForInput m ''Enter new parameter name'' w of
        (Inl err, w1) \<Rightarrow> (Some err, w1)
      | (Inr name, w1) \<Rightarrow>
          (case SSMManager_promptForInput m ''Enter parameter value'' w1 of
             (Inl err, w2) \<Rightarrow> (Some err, w2)
           | (Inr value, w2) \<Rightarrow>
               (case SSMManager_promptForParamType m w2 of
                  (Inl err, w3) \<Rightarrow> (Some err, w3)
                | (Inr paramType, w3) \<Rightarrow>
                    (let fullName = m_prefix m @ name in
                     case SSMManager_updateParameterWithRetry m fullName value paramType w3 of
                       (Some err, w4) \<Rightarrow>
                         (Some (Errorf (''failed to create parameter: '' @ Error err)), w4)
                     | (None, w4) \<Rightarrow>
                         (None, if \<not> m_quiet m
                                then print (''Parameter created successfully.'' @ NL) w4
                                else w4)))))"

definition SSMManager_updateParameter ::
  "SSMManager \<Rightarrow> parameter list \<Rightarrow> string \<Rightarrow> world \<Rightarrow> error option \<times> SSMManager \<times> world" where
  "SSMManager_updateParameter m params selection w =
     (let paramName = hd (SplitN2 selection '' = '');
          fullName = m_prefix m @ paramName
      in case find (\<lambda>p. Name p = fullName) params of
           None \<Rightarrow> (Some (Errorf (''parameter not found: '' @ fullName)), m, w)
         | Some param \<Rightarrow>
             (let w1 = (if \<not> m_quiet m
                        then print (''Current value: '' @ Value param @ NL)
                               (print (''Updating parameter: '' @ fullName @ NL) w)
                        else w)
              in case SSMManager_promptForNewValue m (Value param) w1 of
                   (Inl err, w2) \<Rightarrow> (Some err, m, w2)
                 | (Inr newValue, w2) \<Rightarrow>
                     (if newValue = Value param
                      then (None, m,
                            if \<not> m_quiet m then print (''No changes made.'' @ NL) w2 else w2)
                      else
                        (case SSMManager_updateParameterWithRetry m fullName newValue
                                (Type param) w2 of
                           (Some err, w3) \<Rightarrow>
                             (Some (Errorf (''error updating parameter: '' @ Error err)), m, w3)
                         | (None, w3) \<Rightarrow>
                             (None,
                              m\<lparr>m_latestParam :=
                                  Some \<lparr>Name = fullName, Value = newValue, Type = Type param\<rparr>\<rparr>,
                              if \<not> m_quiet m
                              then print (''Parameter updated successfully.'' @ NL) w3
                              else w3)))))"

definition SSMManager_run :: "SSMManager \<Rightarrow> world \<Rightarrow> error option \<times> SSMManager \<times> world" where
  "SSMManager_run m w =
     (case SSMManager_fetchParameters m w of
        (Inl err, w1) \<Rightarrow> (Some (Errorf (''error fetching parameters: '' @ Error err)), m, w1)
      | (Inr params, w1) \<Rightarrow>
          (case SSMManager_promptForAction m params w1 of
             (Inl err, w2) \<Rightarrow>
               (Some (Errorf (''error prompting for action: '' @ Error err)), m, w2)
           | (Inr action, w2) \<Rightarrow>
               (if action = ''quit''
                then (Some (Errorf ''user quit''), m,
                      if \<not> m_quiet m then print (''Exiting...'' @ NL) w2 else w2)
                else if action = ''create''
                then (case SSMManager_createNewParameter m w2 of (err, w3) \<Rightarrow> (err, m, w3))
                else SSMManager_updateParameter m params action w2)))"

text \<open>The loop of \<open>main\<close>: it returns when \<open>run\<close> fails with the message \<open>user quit\<close>, logs
  any other error and calls \<open>run\<close> again. \<open>fuel\<close> bounds the iterations of the model; \<open>None\<close>
  is a loop that has not ended within them.\<close>

fun SSMManager_main_loop :: "nat \<Rightarrow> SSMManager \<Rightarrow> world \<Rightarrow> world option" where
  "SSMManager_main_loop 0 m w = None"
| "SSMManager_main_loop (Suc fuel) m w =
     (case SSMManager_run m w of
        (None, m', w') \<Rightarrow> SSMManager_main_loop fuel m' w'
      | (Some err, m', w') \<Rightarrow>
          (if Error err = ''user quit'' then Some w'
           else SSMManager_main_loop fuel m' (log_Printf (''Error: '' @ Error err) w')))"

definition SSMManager_main :: "nat \<Rightarrow> string \<Rightarrow> bool \<Rightarrow> world \<Rightarrow> world option" where
  "SSMManager_main fuel prefixFlag quietFlag w =
     (case SSMManager_getPrefix prefixFlag w of
        (Inl err, w1) \<Rightarrow> Some w1
      | (Inr prefix, w1) \<Rightarrow>
          SSMManager_main_loop fuel
            \<lparr>m_prefix = prefix, m_latestParam = None, m_quiet = quietFlag\<rparr> w1)"

section \<open>The second program of src/main.go\<close>

text \<open>Its \<open>fetchParameters\<close> is the text of the one of \<open>part_001\<close>. \<open>reader.ReadString\<close>
  reads a line of standard input with its newline; the program drops the error, so the
  end of the input is the empty string. Ctrl+C at a plain read ends the process:
  \<open>None\<close>.\<close>

definition reader_ReadString :: "world \<Rightarrow> string option \<times> world" where
  "reader_ReadString w =
     (case next_key w of
        (Enter s, w') \<Rightarrow> (Some (s @ NL), w')
      | (CtrlC, w') \<Rightarrow> (None, w')
      | (_, w') \<Rightarrow> (Some [], w'))"

fun basic_formatParameters :: "parameter list \<Rightarrow> string list" where
  "basic_formatParameters [] = []"
| "basic_formatParameters (param # params) =
     (let name = Split (Name param) CHR ''/''
      in (last name @ '' = '' @ Value param) # basic_formatParameters params)"

definition basic_updateParameter :: "string \<Rightarrow> string \<Rightarrow> world \<Rightarrow> error option \<times> world" where
  "basic_updateParameter name value w =
     svc_PutParameter
       \<lparr>put_Name = name, put_Value = value, put_Type = ''SecureString'',
        put_Overwrite = True\<rparr> w"

definition basic_main_iteration :: "string \<Rightarrow> world \<Rightarrow> control \<times> world" where
  "basic_main_iteration prefix w =
     (case fetchParameters prefix w of
        (Inl err, w1) \<Rightarrow> (Return, print (''Error fetching parameters: '' @ Error err @ NL) w1)
      | (Inr params, w1) \<Rightarrow>
          (case Select_Run (basic_formatParameters params) w1 of
             (Inl err, w2) \<Rightarrow>
               (if err = ErrInterrupt then (Return, print (NL @ ''Quitting...'' @ NL) w2)
                else (Return, print (''Prompt failed '' @ Error err @ NL) w2))
           | (Inr (index, result), w2) \<Rightarrow>
               (let paramName = prefix @ hd (SplitN2 result '' = '') in
                if \<not> index < length params then (Panic, w2)
                else
                  (let w3 = print ''Enter new value (or press Enter to cancel): ''
                              (print (''Current value: '' @ Value (params ! index) @ NL) w2)
                   in case reader_ReadString w3 of
                        (None, w4) \<Rightarrow> (Killed, w4)
                      | (Some line, w4) \<Rightarrow>
                          (let newValue = TrimSpace line in
                           if newValue = [] then (Continue, print (''Update cancelled.'' @ NL) w4)
                           else
                             (case basic_updateParameter paramName newValue w4 of
                                (Some err, w5) \<Rightarrow>
                                  (Continue,
                                   print (''Error updating parameter: '' @ Error err @ NL) w5)
                              | (None, w5) \<Rightarrow>
                                  (Continue,
                                   print (''Parameter updated successfully.'' @ NL) w5)))))))"

fun basic_main_loop :: "nat \<Rightarrow> string \<Rightarrow> world \<Rightarrow> (control \<times> world) option" where
  "basic_main_loop 0 prefix w = None"
| "basic_main_loop (Suc fuel) prefix w =
     (case basic_main_iteration prefix w of
        (Continue, w') \<Rightarrow> basic_main_loop fuel prefix w'
      | (c, w') \<Rightarrow> Some (c, w'))"

definition basic_main :: "nat \<Rightarrow> world \<Rightarrow> (control \<times> world) option" where
  "basic_main fuel w =
     (case reader_ReadString (print ''Enter SSM parameter prefix: '' w) of
        (None, w1) \<Rightarrow> Some (Killed, w1)
      | (Some line, w1) \<Rightarrow>
          (let prefix = TrimSpace line in
           basic_main_loop fuel (if \<not> HasSuffix prefix ''/'' then prefix @ ''/'' else prefix) w1))"

section \<open>Observations\<close>

text \<open>The write requests among the events of a trace, in order, and the number of
  \<open>PutParameter\<close> calls that fail from the next one on before one goes through.\<close>

fun puts_of :: "event list \<Rightarrow> PutParameterInput list" where
  "puts_of [] = []"
| "puts_of (Put input # evs) = input # puts_of evs"
| "puts_of (e # evs) = puts_of evs"

definition leading_faults :: "world \<Rightarrow> nat" where
  "leading_faults w = length (takeWhile (\<lambda>f. f \<noteq> None) (faults w))"

section \<open>Reconciliation, sorting and formatting\<close>

lemma replaceFirst_no_match:
  "Name W \<notin> Name ` set L \<Longrightarrow> replaceFirst W L = L"
  by (induction L) auto

lemma replaceFirst_first_match:
  "i < length L \<Longrightarrow> Name (L ! i) = Name W \<Longrightarrow> (\<forall>j<i. Name (L ! j) \<noteq> Name W)
     \<Longrightarrow> replaceFirst W L = L[i := W]"
proof (induction L arbitrary: i)
  case Nil
  then show ?case by simp
next
  case (Cons p ps)
  show ?case
  proof (cases i)
    case 0
    with Cons.prems show ?thesis by simp
  next
    case (Suc k)
    with Cons.prems have "Name p \<noteq> Name W" by auto
    moreover have "replaceFirst W ps = ps[k := W]"
      using Cons.prems Suc by (intro Cons.IH) auto
    ultimately show ?thesis using Suc by simp
  qed
qed

lemma sortByName_sorted: "sorted (map Name (sortByName ps))"
  by (simp add: sortByName_def)

lemma sortByName_idem: "sortByName (sortByName ps) = sortByName ps"
  unfolding sortByName_def by (rule sort_key_id_if_sorted) simp

lemma sortByName_mset: "mset (sortByName ps) = mset ps"
  by (simp add: sortByName_def)

text \<open>When the names are distinct, the listing in ascending order of the names is
  determined: whatever sort rearranges it gives the result of \<open>sortByName\<close>.\<close>

lemma sortByName_unique:
  assumes d: "distinct (map Name ps)" and m: "mset qs = mset ps" and s: "sorted (map Name qs)"
  shows "qs = sortByName ps"
proof -
  let ?rs = "sortByName ps"
  have mm: "mset (map Name qs) = mset (map Name ?rs)"
    using m by (simp add: sortByName_mset)
  have dq: "distinct (map Name qs)" and dr: "distinct (map Name ?rs)"
    using d m mset_eq_imp_distinct_iff [of "map Name qs" "map Name ps"]
      mset_eq_imp_distinct_iff [of "map Name ?rs" "map Name ps"]
    by (simp_all add: sortByName_mset)
  have "set (map Name qs) = set (map Name ?rs)"
    using mm by (rule mset_eq_setD)
  with s dq dr have names: "map Name qs = map Name ?rs"
    by (intro sorted_distinct_set_unique) (simp_all add: sortByName_sorted)
  have "set qs = set ps" and "set ?rs = set ps"
    using m mset_eq_setD [of qs ps] mset_eq_setD [of ?rs ps] by (simp_all add: sortByName_mset)
  moreover have "inj_on Name (set ps)"
    using d by (simp add: distinct_map)
  ultimately have "inj_on Name (set qs \<union> set ?rs)" by simp
  with names show ?thesis by (simp add: inj_on_map_eq_map)
qed

text \<open>Where the programs compute the listing: \<open>SSMManager.fetchParameters\<close> returns it,
  the loop of \<open>main\<close> in \<open>part_001\<close> hands it to the menu.\<close>

lemma SSMManager_fetchParameters_listing:
  "fetch_pages (m_prefix m) None [] w = (Inr L, w1) \<Longrightarrow>
   SSMManager_fetchParameters m w = (Inr (sortByName (updateWithLatest (m_latestParam m) L)), w1)"
  by (simp add: SSMManager_fetchParameters_def)

lemma main_iteration_listing:
  "fetchParameters prefix w = (Inr L, w1) \<Longrightarrow>
   main_iteration prefix debugFlag secureFlag latestParam w =
     main_select prefix debugFlag secureFlag latestParam
       (sortByName (updateWithLatest latestParam L)) w1"
  by (simp add: main_iteration_def)

lemma replaceFirst_match:
  "Name W \<in> Name ` set L \<Longrightarrow>
   \<exists>i<length L. Name (L ! i) = Name W \<and> (\<forall>j<i. Name (L ! j) \<noteq> Name W)
      \<and> replaceFirst W L = L[i := W]"
proof (induction L)
  case Nil
  then show ?case by simp
next
  case (Cons p ps)
  show ?case
  proof (cases "Name p = Name W")
    case True
    then have "0 < length (p # ps) \<and> Name ((p # ps) ! 0) = Name W
        \<and> (\<forall>j<0. Name ((p # ps) ! j) \<noteq> Name W)
        \<and> replaceFirst W (p # ps) = (p # ps)[0 := W]"
      by simp
    then show ?thesis by blast
  next
    case False
    with Cons.prems have "Name W \<in> Name ` set ps" by auto
    from Cons.IH [OF this] obtain i where i: "i < length ps" "Name (ps ! i) = Name W"
        "\<forall>j<i. Name (ps ! j) \<noteq> Name W" "replaceFirst W ps = ps[i := W]"
      by blast
    have "\<forall>j<Suc i. Name ((p # ps) ! j) \<noteq> Name W"
      using False i(3) by (auto simp: less_Suc_eq_0_disj)
    with i False have "Suc i < length (p # ps) \<and> Name ((p # ps) ! Suc i) = Name W
        \<and> (\<forall>j<Suc i. Name ((p # ps) ! j) \<noteq> Name W)
        \<and> replaceFirst W (p # ps) = (p # ps)[Suc i := W]"
      by simp
    then show ?thesis by blast
  qed
qed

lemma reconciled_listing_cases:
  "sorted (map Name (sortByName (updateWithLatest latest L)))
   \<and> (case latest of
        None \<Rightarrow> sortByName (updateWithLatest latest L) = sortByName L
                 \<and> mset (sortByName (updateWithLatest latest L)) = mset L
      | Some W \<Rightarrow>
          if Name W \<in> Name ` set L
          then \<exists>i<length L. Name (L ! i) = Name W \<and> (\<forall>j<i. Name (L ! j) \<noteq> Name W)
                 \<and> sortByName (updateWithLatest latest L) = sortByName (L[i := W])
                 \<and> mset (sortByName (updateWithLatest latest L))
                     = add_mset W (mset L - {#L ! i#})
          else sortByName (updateWithLatest latest L) = sortByName L
               \<and> mset (sortByName (updateWithLatest latest L)) = mset L)"
proof (cases latest)
  case None
  then show ?thesis by (simp add: sortByName_sorted sortByName_mset updateWithLatest_def)
next
  case (Some W)
  show ?thesis
  proof (cases "Name W \<in> Name ` set L")
    case True
    from replaceFirst_match [OF True] obtain i where i: "i < length L" "Name (L ! i) = Name W"
        "\<forall>j<i. Name (L ! j) \<noteq> Name W" "replaceFirst W L = L[i := W]"
      by blast
    then have "mset (sortByName (L[i := W])) = add_mset W (mset L - {#L ! i#})"
      by (simp add: sortByName_mset mset_update)
    with i have "\<exists>i<length L. Name (L ! i) = Name W \<and> (\<forall>j<i. Name (L ! j) \<noteq> Name W)
                 \<and> sortByName (replaceFirst W L) = sortByName (L[i := W])
                 \<and> mset (sortByName (replaceFirst W L)) = add_mset W (mset L - {#L ! i#})"
      by auto
    with Some True show ?thesis
      by (simp add: sortByName_sorted updateWithLatest_def)
  next
    case False
    then have "replaceFirst W L = L" by (rule replaceFirst_no_match)
    with Some False show ?thesis
      by (simp add: sortByName_sorted sortByName_mset updateWithLatest_def)
  qed
qed

lemma reconciled_listing_rearranged:
  "sorted (map Name (sortByName (updateWithLatest latest L)))
   \<and> (case latest of
        None \<Rightarrow> mset (sortByName (updateWithLatest latest L)) = mset L
      | Some W \<Rightarrow>
          if Name W \<in> Name ` set L
          then \<exists>i<length L. Name (L ! i) = Name W \<and> (\<forall>j<i. Name (L ! j) \<noteq> Name W)
                 \<and> mset (sortByName (updateWithLatest latest L))
                     = add_mset W (mset L - {#L ! i#})
          else mset (sortByName (updateWithLatest latest L)) = mset L)"
  using reconciled_listing_cases [of latest L]
  by (auto split: option.splits if_splits)

text \<open>
  C4. For the listing \<open>L\<close> that the paging loop fetches and the cached latest write:
  \<open>SSMManager.fetchParameters\<close> returns, and the loop of \<open>main\<close> in \<open>part_001\<close> hands to
  its menu, a listing \<open>ps\<close> in ascending order of the names such that
  \<^item> when nothing is cached, or no name of \<open>L\<close> is the name of the cached entry \<open>W\<close>, \<open>ps\<close>
    is \<open>L\<close> sorted: it has the entries of \<open>L\<close>, each as often as \<open>L\<close> has it;
  \<^item> when some name of \<open>L\<close> is the name of \<open>W\<close>, with \<open>i\<close> the first position of that name
    (the only one when names are unique), \<open>ps\<close> has the entries of \<open>L\<close> with entry \<open>i\<close> taken
    out and \<open>W\<close>, which carries the cached value, put in; every other entry is there
    unchanged.
  So in every case \<open>ps\<close> is \<open>L\<close> with at most one entry substituted, then sorted.
\<close>

theorem reconciliation_substitutes_one_entry:
  "(fetch_pages (m_prefix m) None [] w = (Inr L, w1) \<longrightarrow>
      (\<exists>ps. SSMManager_fetchParameters m w = (Inr ps, w1)
         \<and> sorted (map Name ps)
         \<and> (case m_latestParam m of
              None \<Rightarrow> mset ps = mset L
            | Some W \<Rightarrow>
                if Name W \<in> Name ` set L
                then \<exists>i<length L. Name (L ! i) = Name W \<and> (\<forall>j<i. Name (L ! j) \<noteq> Name W)
                       \<and> mset ps = add_mset W (mset L - {#L ! i#})
                else mset ps = mset L)))
   \<and> (fetchParameters prefix w = (Inr L, w1) \<longrightarrow>
      (\<exists>ps. main_iteration prefix debugFlag secureFlag latestParam w
               = main_select prefix debugFlag secureFlag latestParam ps w1
         \<and> sorted (map Name ps)
         \<and> (case latestParam of
              None \<Rightarrow> mset ps = mset L
            | Some W \<Rightarrow>
                if Name W \<in> Name ` set L
                then \<exists>i<length L. Name (L ! i) = Name W \<and> (\<forall>j<i. Name (L ! j) \<noteq> Name W)
                       \<and> mset ps = add_mset W (mset L - {#L ! i#})
                else mset ps = mset L)))"
proof (intro conjI impI)
  assume "fetch_pages (m_prefix m) None [] w = (Inr L, w1)"
  then have "SSMManager_fetchParameters m w
      = (Inr (sortByName (updateWithLatest (m_latestParam m) L)), w1)"
    by (rule SSMManager_fetchParameters_listing)
  with reconciled_listing_rearranged [of "m_latestParam m" L]
  show "\<exists>ps. SSMManager_fetchParameters m w = (Inr ps, w1)
         \<and> sorted (map Name ps)
         \<and> (case m_latestParam m of
              None \<Rightarrow> mset ps = mset L
            | Some W \<Rightarrow>
                if Name W \<in> Name ` set L
                then \<exists>i<length L. Name (L ! i) = Name W \<and> (\<forall>j<i. Name (L ! j) \<noteq> Name W)
                       \<and> mset ps = add_mset W (mset L - {#L ! i#})
                else mset ps = mset L)"
    by (intro exI [of _ "sortByName (updateWithLatest (m_latestParam m) L)"]) simp
next
  assume "fetchParameters prefix w = (Inr L, w1)"
  then have "main_iteration prefix debugFlag secureFlag latestParam w
      = main_select prefix debugFlag secureFlag latestParam
          (sortByName (updateWithLatest latestParam L)) w1"
    by (rule main_iteration_listing)
  with reconciled_listing_rearranged [of latestParam L]
  show "\<exists>ps. main_iteration prefix debugFlag secureFlag latestParam w
               = main_select prefix debugFlag secureFlag latestParam ps w1
         \<and> sorted (map Name ps)
         \<and> (case latestParam of
              None \<Rightarrow> mset ps = mset L
            | Some W \<Rightarrow>
                if Name W \<in> Name ` set L
                then \<exists>i<length L. Name (L ! i) = Name W \<and> (\<forall>j<i. Name (L ! j) \<noteq> Name W)
                       \<and> mset ps = add_mset W (mset L - {#L ! i#})
                else mset ps = mset L)"
    by (intro exI [of _ "sortByName (updateWithLatest latestParam L)"]) simp
qed

theorem reconciliation_substitutes_one_entry_witness:
  "SSMManager_fetchParameters
     \<lparr>m_prefix = ''/app/test/'',
      m_latestParam = Some \<lparr>Name = ''/app/test/A'', Value = ''5'', Type = ''String''\<rparr>,
      m_quiet = True\<rparr>
     \<lparr>responses = [Inr ([\<lparr>Name = ''/app/test/B'', Value = ''2'', Type = ''String''\<rparr>,
                          \<lparr>Name = ''/app/test/A'', Value = ''1'', Type = ''String''\<rparr>], None)],
      store = Map.empty, faults = [], rl_fault = None, keys = [], trace = []\<rparr>
   = (Inr [\<lparr>Name = ''/app/test/A'', Value = ''5'', Type = ''String''\<rparr>,
           \<lparr>Name = ''/app/test/B'', Value = ''2'', Type = ''String''\<rparr>],
      \<lparr>responses = [], store = Map.empty, faults = [], rl_fault = None, keys = [],
       trace = [Get \<lparr>get_Path = ''/app/test/'', get_Recursive = False,
                     get_WithDecryption = True, get_NextToken = None\<rparr>]\<rparr>)
   \<and> main_iteration ''/app/test/'' False False
       (Some \<lparr>Name = ''/app/test/A'', Value = ''5'', Type = ''String''\<rparr>)
       \<lparr>responses = [Inr ([\<lparr>Name = ''/app/test/B'', Value = ''2'', Type = ''String''\<rparr>,
                            \<lparr>Name = ''/app/test/A'', Value = ''1'', Type = ''String''\<rparr>], None)],
        store = Map.empty, faults = [], rl_fault = None, keys = [], trace = []\<rparr>
     = main_select ''/app/test/'' False False
         (Some \<lparr>Name = ''/app/test/A'', Value = ''5'', Type = ''String''\<rparr>)
         [\<lparr>Name = ''/app/test/A'', Value = ''5'', Type = ''String''\<rparr>,
          \<lparr>Name = ''/app/test/B'', Value = ''2'', Type = ''String''\<rparr>]
         \<lparr>responses = [], store = Map.empty, faults = [], rl_fault = None, keys = [],
          trace = [Get \<lparr>get_Path = ''/app/test/'', get_Recursive = False,
                        get_WithDecryption = True, get_NextToken = None\<rparr>]\<rparr>"
proof -
  let ?W = "\<lparr>Name = ''/app/test/A'', Value = ''5'', Type = ''String''\<rparr>"
  let ?B = "\<lparr>Name = ''/app/test/B'', Value = ''2'', Type = ''String''\<rparr>"
  let ?L = "[?B, \<lparr>Name = ''/app/test/A'', Value = ''1'', Type = ''String''\<rparr>]"
  let ?m = "\<lparr>m_prefix = ''/app/test/'', m_latestParam = Some ?W, m_quiet = True\<rparr>"
  let ?w = "\<lparr>responses = [Inr (?L, None)], store = Map.empty, faults = [], rl_fault = None,
             keys = [], trace = []\<rparr>"
  let ?w1 = "\<lparr>responses = [], store = Map.empty, faults = [], rl_fault = None, keys = [],
              trace = [Get \<lparr>get_Path = ''/app/test/'', get_Recursive = False,
                            get_WithDecryption = True, get_NextToken = None\<rparr>]\<rparr>"
  have pages: "fetch_pages (m_prefix ?m) None [] ?w = (Inr ?L, ?w1)"
    by (simp add: fetch_pages.simps svc_GetParametersByPath_def emit_def)
  then have fetch: "fetchParameters ''/app/test/'' ?w = (Inr ?L, ?w1)"
    by (simp add: fetchParameters_def)
  have only: "ps = [?W, ?B]"
    if srt: "sorted (map Name ps)" and
      ex: "\<exists>i<length ?L. Name (?L ! i) = Name ?W \<and> (\<forall>j<i. Name (?L ! j) \<noteq> Name ?W)
          \<and> mset ps = add_mset ?W (mset ?L - {#?L ! i#})" for ps
  proof -
    from ex obtain i where i: "i < length ?L" "Name (?L ! i) = Name ?W"
        "mset ps = add_mset ?W (mset ?L - {#?L ! i#})"
      by blast
    then have "i = 1" by (cases i) auto
    with i have "mset ps = mset [?B, ?W]" by simp
    moreover have "distinct (map Name [?B, ?W])" by simp
    ultimately have "ps = sortByName [?B, ?W]"
      using srt by (intro sortByName_unique)
    then show ?thesis by (simp add: sortByName_def)
  qed
  from reconciliation_substitutes_one_entry [where m = ?m and w = ?w and L = ?L and ?w1.0 = ?w1
      and prefix = "''/app/test/''" and latestParam = "Some ?W" and debugFlag = False
      and secureFlag = False] pages fetch
  obtain ps qs where
    a: "SSMManager_fetchParameters ?m ?w = (Inr ps, ?w1)" "sorted (map Name ps)"
       "\<exists>i<length ?L. Name (?L ! i) = Name ?W \<and> (\<forall>j<i. Name (?L ! j) \<noteq> Name ?W)
          \<and> mset ps = add_mset ?W (mset ?L - {#?L ! i#})" and
    b: "main_iteration ''/app/test/'' False False (Some ?W) ?w
          = main_select ''/app/test/'' False False (Some ?W) qs ?w1" "sorted (map Name qs)"
       "\<exists>i<length ?L. Name (?L ! i) = Name ?W \<and> (\<forall>j<i. Name (?L ! j) \<noteq> Name ?W)
          \<and> mset qs = add_mset ?W (mset ?L - {#?L ! i#})"
    by auto
  from only [OF a(2,3)] only [OF b(2,3)] a(1) b(1) show ?thesis by simp
qed

text \<open>
  C9. The listing that \<open>SSMManager.fetchParameters\<close> returns, and the listing that the
  loop of \<open>main\<close> in \<open>part_001\<close> hands to its menu, is a rearrangement of the fetched
  listing after reconciliation, in ascending order of the full names compared byte by
  byte (so case matters); sorting it again gives the same listing, and when its names
  are distinct, whatever sort puts it in ascending order gives the same listing.
\<close>

theorem reconciled_listing_sorted:
  "(SSMManager_fetchParameters m w = (Inr ps, w') \<longrightarrow>
      (\<exists>L. fetch_pages (m_prefix m) None [] w = (Inr L, w')
         \<and> mset ps = mset (updateWithLatest (m_latestParam m) L))
      \<and> sorted (map Name ps) \<and> sortByName ps = ps
      \<and> (distinct (map Name ps) \<longrightarrow>
           (\<forall>qs. mset qs = mset ps \<and> sorted (map Name qs) \<longrightarrow> qs = ps)))
   \<and> (fetchParameters prefix w = (Inr L, w1) \<longrightarrow>
      (\<exists>ps. main_iteration prefix debugFlag secureFlag latestParam w
               = main_select prefix debugFlag secureFlag latestParam ps w1
         \<and> mset ps = mset (updateWithLatest latestParam L)
         \<and> sorted (map Name ps) \<and> sortByName ps = ps
         \<and> (distinct (map Name ps) \<longrightarrow>
              (\<forall>qs. mset qs = mset ps \<and> sorted (map Name qs) \<longrightarrow> qs = ps))))"
proof -
  have sorted_facts: "mset (sortByName xs) = mset xs \<and> sorted (map Name (sortByName xs))
      \<and> sortByName (sortByName xs) = sortByName xs
      \<and> (distinct (map Name (sortByName xs)) \<longrightarrow>
           (\<forall>qs. mset qs = mset (sortByName xs) \<and> sorted (map Name qs) \<longrightarrow> qs = sortByName xs))"
    for xs
  proof -
    have "qs = sortByName xs"
      if "distinct (map Name (sortByName xs))" "mset qs = mset (sortByName xs)"
        "sorted (map Name qs)" for qs
      using sortByName_unique [of "sortByName xs" qs] that by (simp add: sortByName_idem)
    then show ?thesis
      by (simp add: sortByName_mset sortByName_sorted sortByName_idem)
  qed
  have part1: "(\<exists>L. fetch_pages (m_prefix m) None [] w = (Inr L, w')
         \<and> mset ps = mset (updateWithLatest (m_latestParam m) L))
      \<and> sorted (map Name ps) \<and> sortByName ps = ps
      \<and> (distinct (map Name ps) \<longrightarrow>
           (\<forall>qs. mset qs = mset ps \<and> sorted (map Name qs) \<longrightarrow> qs = ps))"
    if run: "SSMManager_fetchParameters m w = (Inr ps, w')"
  proof -
    from run obtain L where L: "fetch_pages (m_prefix m) None [] w = (Inr L, w')"
        "ps = sortByName (updateWithLatest (m_latestParam m) L)"
      by (auto simp: SSMManager_fetchParameters_def split: prod.split_asm sum.split_asm)
    with sorted_facts [of "updateWithLatest (m_latestParam m) L"] show ?thesis by blast
  qed
  have part2: "\<exists>ps. main_iteration prefix debugFlag secureFlag latestParam w
               = main_select prefix debugFlag secureFlag latestParam ps w1
         \<and> mset ps = mset (updateWithLatest latestParam L)
         \<and> sorted (map Name ps) \<and> sortByName ps = ps
         \<and> (distinct (map Name ps) \<longrightarrow>
              (\<forall>qs. mset qs = mset ps \<and> sorted (map Name qs) \<longrightarrow> qs = ps))"
    if "fetchParameters prefix w = (Inr L, w1)"
    using main_iteration_listing [OF that, of debugFlag secureFlag latestParam]
      sorted_facts [of "updateWithLatest latestParam L"]
    by (intro exI [of _ "sortByName (updateWithLatest latestParam L)"]) simp
  show ?thesis using part1 part2 by blast
qed

theorem reconciled_listing_sorted_witness:
  "(case SSMManager_fetchParameters
           \<lparr>m_prefix = ''/app/test/'',
            m_latestParam = Some \<lparr>Name = ''/app/test/a'', Value = ''5'', Type = ''String''\<rparr>,
            m_quiet = True\<rparr>
           \<lparr>responses =
              [Inr ([\<lparr>Name = ''/app/test/a'', Value = ''1'', Type = ''String''\<rparr>], Some ''t''),
               Inr ([\<lparr>Name = ''/app/test/B'', Value = ''2'', Type = ''String''\<rparr>], None)],
            store = Map.empty, faults = [], rl_fault = None, keys = [], trace = []\<rparr> of
      (Inr params, w') \<Rightarrow>
        params = [\<lparr>Name = ''/app/test/B'', Value = ''2'', Type = ''String''\<rparr>,
                  \<lparr>Name = ''/app/test/a'', Value = ''5'', Type = ''String''\<rparr>]
        \<and> sorted (map Name params) \<and> sortByName params = params
    | (Inl err, w') \<Rightarrow> False)
   \<and> (\<exists>ps. main_iteration ''/app/test/'' False False
              (Some \<lparr>Name = ''/app/test/a'', Value = ''5'', Type = ''String''\<rparr>)
              \<lparr>responses =
                 [Inr ([\<lparr>Name = ''/app/test/a'', Value = ''1'', Type = ''String''\<rparr>], Some ''t''),
                  Inr ([\<lparr>Name = ''/app/test/B'', Value = ''2'', Type = ''String''\<rparr>], None)],
               store = Map.empty, faults = [], rl_fault = None, keys = [], trace = []\<rparr>
            = main_select ''/app/test/'' False False
                (Some \<lparr>Name = ''/app/test/a'', Value = ''5'', Type = ''String''\<rparr>) ps
                \<lparr>responses = [], store = Map.empty, faults = [], rl_fault = None, keys = [],
                 trace = [Get \<lparr>get_Path = ''/app/test/'', get_Recursive = False,
                               get_WithDecryption = True, get_NextToken = None\<rparr>,
                          Get \<lparr>get_Path = ''/app/test/'', get_Recursive = False,
                               get_WithDecryption = True, get_NextToken = Some ''t''\<rparr>]\<rparr>
          \<and> sorted (map Name ps) \<and> sortByName ps = ps)"
proof -
  let ?W = "\<lparr>Name = ''/app/test/a'', Value = ''5'', Type = ''String''\<rparr>"
  let ?L = "[\<lparr>Name = ''/app/test/a'', Value = ''1'', Type = ''String''\<rparr>,
             \<lparr>Name = ''/app/test/B'', Value = ''2'', Type = ''String''\<rparr>]"
  let ?m = "\<lparr>m_prefix = ''/app/test/'', m_latestParam = Some ?W, m_quiet = True\<rparr>"
  let ?w = "\<lparr>responses =
              [Inr ([\<lparr>Name = ''/app/test/a'', Value = ''1'', Type = ''String''\<rparr>], Some ''t''),
               Inr ([\<lparr>Name = ''/app/test/B'', Value = ''2'', Type = ''String''\<rparr>], None)],
            store = Map.empty, faults = [], rl_fault = None, keys = [], trace = []\<rparr>"
  let ?w1 = "\<lparr>responses = [], store = Map.empty, faults = [], rl_fault = None, keys = [],
              trace = [Get \<lparr>get_Path = ''/app/test/'', get_Recursive = False,
                            get_WithDecryption = True, get_NextToken = None\<rparr>,
                       Get \<lparr>get_Path = ''/app/test/'', get_Recursive = False,
                            get_WithDecryption = True, get_NextToken = Some ''t''\<rparr>]\<rparr>"
  have fetch: "fetchParameters ''/app/test/'' ?w = (Inr ?L, ?w1)"
    by (simp add: fetchParameters_def fetch_pages.simps svc_GetParametersByPath_def emit_def)
  have run: "SSMManager_fetchParameters ?m ?w
      = (Inr [\<lparr>Name = ''/app/test/B'', Value = ''2'', Type = ''String''\<rparr>, ?W], ?w1)"
    by (simp add: SSMManager_fetchParameters_def fetch_pages.simps svc_GetParametersByPath_def
          emit_def updateWithLatest_def sortByName_def)
  note inst = reconciled_listing_sorted [where m = ?m and w = ?w and w' = ?w1 and L = ?L
      and ?w1.0 = ?w1 and prefix = "''/app/test/''" and latestParam = "Some ?W"
      and debugFlag = False and secureFlag = False
      and ps = "[\<lparr>Name = ''/app/test/B'', Value = ''2'', Type = ''String''\<rparr>, ?W]"]
  from inst run have one: "sorted (map Name [\<lparr>Name = ''/app/test/B'', Value = ''2'',
        Type = ''String''\<rparr>, ?W])
      \<and> sortByName [\<lparr>Name = ''/app/test/B'', Value = ''2'', Type = ''String''\<rparr>, ?W]
          = [\<lparr>Name = ''/app/test/B'', Value = ''2'', Type = ''String''\<rparr>, ?W]"
    by blast
  from inst fetch have two: "\<exists>ps. main_iteration ''/app/test/'' False False (Some ?W) ?w
            = main_select ''/app/test/'' False False (Some ?W) ps ?w1
          \<and> sorted (map Name ps) \<and> sortByName ps = ps"
    by blast
  from one two run show ?thesis by simp
qed

lemma formatParameters_length: "length (formatParameters params secure) = length params"
  by (induction params) (auto simp: Let_def)

lemma formatParameters_nth:
  "i < length params \<Longrightarrow>
   formatParameters params secure ! i =
     last (Split (Name (params ! i)) CHR ''/'') @ '' = '' @
     (if secure \<and> Type (params ! i) = ''SecureString'' then ''******'' else Value (params ! i))"
proof (induction params arbitrary: i)
  case Nil
  then show ?case by simp
next
  case (Cons p ps)
  then show ?case by (cases i) (auto simp: Let_def)
qed

lemma SSMManager_formatParameters_length:
  "length (SSMManager_formatParameters m params) = length params"
  by (induction params) (auto simp: Let_def)

lemma SSMManager_formatParameters_nth:
  "i < length params \<Longrightarrow>
   SSMManager_formatParameters m params ! i =
     TrimPrefix (Name (params ! i)) (m_prefix m) @ '' = '' @ Value (params ! i)"
proof (induction params arbitrary: i)
  case Nil
  then show ?case by simp
next
  case (Cons p ps)
  then show ?case by (cases i) (auto simp: Let_def)
qed

lemma basic_formatParameters_nth:
  "i < length params \<Longrightarrow>
   basic_formatParameters params ! i =
     last (Split (Name (params ! i)) CHR ''/'') @ '' = '' @ Value (params ! i)"
proof (induction params arbitrary: i)
  case Nil
  then show ?case by simp
next
  case (Cons p ps)
  then show ?case by (cases i) (auto simp: Let_def)
qed

text \<open>
  C7. \<open>formatParameters\<close> of \<open>part_001\<close> gives one line for each entry, the last segment
  of its name, \<open> = \<close> and what is shown for its value. With secure mode on, the line
  of an entry of kind \<open>SecureString\<close> shows the placeholder \<open>******\<close> whatever its value is;
  the line of an entry of any other kind, and every line with secure mode off, shows the
  value itself. \<open>SSMManager.formatParameters\<close> and \<open>formatParameters\<close> of the second
  program of \<open>src/main.go\<close> have no secure mode and show the value of every entry.
\<close>

theorem formatParameters_masks_secrets:
  "length (formatParameters params secure) = length params
   \<and> (\<forall>i<length params.
         (secure \<and> Type (params ! i) = ''SecureString'' \<longrightarrow>
            formatParameters params secure ! i =
              last (Split (Name (params ! i)) CHR ''/'') @ '' = '' @ ''******'')
       \<and> (Type (params ! i) \<noteq> ''SecureString'' \<longrightarrow>
            formatParameters params secure ! i =
              last (Split (Name (params ! i)) CHR ''/'') @ '' = '' @ Value (params ! i))
       \<and> formatParameters params False ! i =
            last (Split (Name (params ! i)) CHR ''/'') @ '' = '' @ Value (params ! i)
       \<and> SSMManager_formatParameters m params ! i =
            TrimPrefix (Name (params ! i)) (m_prefix m) @ '' = '' @ Value (params ! i)
       \<and> basic_formatParameters params ! i =
            last (Split (Name (params ! i)) CHR ''/'') @ '' = '' @ Value (params ! i))"
  by (simp add: formatParameters_length formatParameters_nth SSMManager_formatParameters_nth
        basic_formatParameters_nth)

theorem formatParameters_masks_secrets_witness:
  "formatParameters
     [\<lparr>Name = ''/app/test/KEY'', Value = ''hunter2'', Type = ''SecureString''\<rparr>,
      \<lparr>Name = ''/app/test/URL'', Value = ''http://x'', Type = ''String''\<rparr>] True
   = [''KEY = ******'', ''URL = http://x'']
   \<and> formatParameters
     [\<lparr>Name = ''/app/test/KEY'', Value = ''hunter2'', Type = ''SecureString''\<rparr>,
      \<lparr>Name = ''/app/test/URL'', Value = ''http://x'', Type = ''String''\<rparr>] False
   = [''KEY = hunter2'', ''URL = http://x'']"
proof -
  let ?ps = "[\<lparr>Name = ''/app/test/KEY'', Value = ''hunter2'', Type = ''SecureString''\<rparr>,
              \<lparr>Name = ''/app/test/URL'', Value = ''http://x'', Type = ''String''\<rparr>]"
  have len: "length ?ps = 2" by simp
  have "formatParameters ?ps True ! 0 = last (Split (Name (?ps ! 0)) CHR ''/'') @ '' = '' @ ''******''"
    and "formatParameters ?ps True ! 1 = last (Split (Name (?ps ! 1)) CHR ''/'') @ '' = '' @ Value (?ps ! 1)"
    and "formatParameters ?ps False ! 0 = last (Split (Name (?ps ! 0)) CHR ''/'') @ '' = '' @ Value (?ps ! 0)"
    and "formatParameters ?ps False ! 1 = last (Split (Name (?ps ! 1)) CHR ''/'') @ '' = '' @ Value (?ps ! 1)"
    using formatParameters_masks_secrets [of ?ps True] formatParameters_masks_secrets [of ?ps False]
    by simp_all
  moreover have "length (formatParameters ?ps True) = 2" "length (formatParameters ?ps False) = 2"
    using formatParameters_masks_secrets [of ?ps] by simp_all
  ultimately show ?thesis
    by (simp add: list_eq_iff_nth_eq less_Suc_eq numeral_2_eq_2)
qed

section \<open>Writes\<close>

lemma svc_PutParameter_overwrite:
  "svc_PutParameter
     \<lparr>put_Name = name, put_Value = value, put_Type = paramType, put_Overwrite = True\<rparr> w =
     (case faults w of
        Some err # fs \<Rightarrow>
          (Some err,
           w\<lparr>faults := fs,
             trace := trace w @ [Put \<lparr>put_Name = name, put_Value = value, put_Type = paramType,
                                     put_Overwrite = True\<rparr>]\<rparr>)
      | _ \<Rightarrow>
          (None,
           w\<lparr>faults := tl (faults w),
             trace := trace w @ [Put \<lparr>put_Name = name, put_Value = value, put_Type = paramType,
                                     put_Overwrite = True\<rparr>],
             store := (store w)(name \<mapsto> (value, paramType))\<rparr>))"
  by (auto simp: svc_PutParameter_def emit_def Let_def split: list.splits option.splits)

text \<open>The loop of \<open>updateParameterWithRetry\<close> from \<open>i\<close> on: with \<open>k\<close> failing calls ahead
  and \<open>n = maxRetries - i\<close> attempts left, it succeeds at attempt \<open>k + 1\<close> when \<open>k < n\<close> and
  gives up after \<open>n\<close> attempts otherwise.\<close>

lemma updateParameterWithRetry_loop_run:
  "i \<le> maxRetries \<Longrightarrow>
   updateParameterWithRetry_loop i name value paramType w =
     (let k = leading_faults w; n = maxRetries - i;
          req = \<lparr>put_Name = name, put_Value = value, put_Type = paramType, put_Overwrite = True\<rparr>
      in if k < n
         then (None,
               w\<lparr>faults := drop (Suc k) (faults w),
                 trace := trace w @ concat (replicate k [Put req, Sleep retryDelay]) @ [Put req],
                 store := (store w)(name \<mapsto> (value, paramType))\<rparr>)
         else (Some (Errorf (''failed to update parameter after '' @ itoa maxRetries @ '' attempts'')),
               w\<lparr>faults := drop n (faults w),
                 trace := trace w @ concat (replicate n [Put req, Sleep retryDelay])\<rparr>))"
proof (induction i name "value" paramType w rule: updateParameterWithRetry_loop.induct)
  case (1 i name "value" paramType w)
  let ?req = "\<lparr>put_Name = name, put_Value = value, put_Type = paramType, put_Overwrite = True\<rparr>"
  show ?case
  proof (cases "i < maxRetries")
    case False
    with "1.prems" have "maxRetries - i = 0" by simp
    with False show ?thesis
      by (subst updateParameterWithRetry_loop.simps) (simp add: Let_def)
  next
    case True
    show ?thesis
    proof (cases "faults w")
      case Nil
      then show ?thesis using True
        by (subst updateParameterWithRetry_loop.simps)
           (simp add: svc_PutParameter_overwrite leading_faults_def Let_def)
    next
      case (Cons f fs)
      show ?thesis
      proof (cases f)
        case None
        then show ?thesis using True Cons
          by (subst updateParameterWithRetry_loop.simps)
             (simp add: svc_PutParameter_overwrite leading_faults_def Let_def)
      next
        case (Some e)
        let ?w1 = "w\<lparr>faults := fs, trace := trace w @ [Put ?req]\<rparr>"
        let ?w2 = "time_Sleep retryDelay ?w1"
        have put: "svc_PutParameter ?req w = (Some e, ?w1)"
          using Cons Some by (simp add: svc_PutParameter_overwrite)
        have k: "leading_faults w = Suc (leading_faults ?w2)"
          using Cons Some by (simp add: leading_faults_def time_Sleep_def emit_def)
        have IH: "updateParameterWithRetry_loop (i + 1) name value paramType ?w2 =
           (let k = leading_faults ?w2; n = maxRetries - (i + 1)
            in if k < n
               then (None,
                     ?w2\<lparr>faults := drop (Suc k) (faults ?w2),
                       trace := trace ?w2 @ concat (replicate k [Put ?req, Sleep retryDelay])
                                  @ [Put ?req],
                       store := (store ?w2)(name \<mapsto> (value, paramType))\<rparr>)
               else (Some (Errorf (''failed to update parameter after '' @ itoa maxRetries
                                     @ '' attempts'')),
                     ?w2\<lparr>faults := drop n (faults ?w2),
                       trace := trace ?w2 @ concat (replicate n [Put ?req, Sleep retryDelay])\<rparr>))"
          using "1.IH" [OF True put [symmetric] refl] True by (simp add: Let_def)
        have n: "maxRetries - i = Suc (maxRetries - (i + 1))" using True by simp
        show ?thesis
          apply (subst updateParameterWithRetry_loop.simps)
          apply (simp only: True if_True put prod.case option.case IH)
          apply (simp add: k n Let_def time_Sleep_def emit_def Cons del: replicate.simps)
          apply (simp add: replicate_app_Cons_same)
          done
      qed
    qed
  qed
qed

lemma itoa_maxRetries: "itoa maxRetries = ''5''"
  by (simp add: itoa.simps maxRetries_def)

lemma puts_of_append: "puts_of (xs @ ys) = puts_of xs @ puts_of ys"
  by (induction xs rule: puts_of.induct) auto

lemma puts_of_attempts:
  "puts_of (concat (replicate k [Put req, Sleep d])) = replicate k req"
  by (induction k) auto

lemma updateParameterWithRetry_run:
  "SSMManager_updateParameterWithRetry m name value paramType w =
      (let k = leading_faults w;
           req = \<lparr>put_Name = name, put_Value = value, put_Type = paramType, put_Overwrite = True\<rparr>
       in if k < 5
          then (None,
                w\<lparr>faults := drop (Suc k) (faults w),
                  trace := trace w @ concat (replicate k [Put req, Sleep 200]) @ [Put req],
                  store := (store w)(name \<mapsto> (value, paramType))\<rparr>)
          else (Some (Errorf ''failed to update parameter after 5 attempts''),
                w\<lparr>faults := drop 5 (faults w),
                  trace := trace w @ concat (replicate 5 [Put req, Sleep 200])\<rparr>))"
  unfolding SSMManager_updateParameterWithRetry_def
  by (subst updateParameterWithRetry_loop_run)
     (simp_all add: itoa_maxRetries Let_def, simp_all add: maxRetries_def retryDelay_def)

text \<open>
  C3 (as amended). \<open>SSMManager.updateParameterWithRetry\<close>, with \<open>k\<close> the number of
  \<open>PutParameter\<close> calls that fail before one goes through: every attempt sends the same
  request; every failed attempt is followed by a sleep of 200 ms; the number of attempts
  is \<open>k + 1\<close> when \<open>k < 5\<close> and 5 otherwise, so at most 5; it returns \<open>nil\<close> at the first
  attempt that succeeds; when the first 5 attempts fail it has made exactly 5 attempts
  and returns the error \<open>failed to update parameter after 5 attempts\<close>.
  \<open>updateParameter\<close> of \<open>part_001\<close> makes exactly one attempt, with no sleep, and returns
  what the service returned.
\<close>

theorem persist_attempts:
  "(let k = leading_faults w;
        req = \<lparr>put_Name = name, put_Value = value, put_Type = paramType, put_Overwrite = True\<rparr>;
        (err, w') = SSMManager_updateParameterWithRetry m name value paramType w
    in trace w' = trace w @ concat (replicate (min k 5) [Put req, Sleep 200])
                          @ (if k < 5 then [Put req] else [])
       \<and> puts_of (drop (length (trace w)) (trace w')) = replicate (min (Suc k) 5) req
       \<and> err = (if k < 5 then None
                 else Some (Errorf ''failed to update parameter after 5 attempts'')))
   \<and> (let req = \<lparr>put_Name = name, put_Value = value, put_Type = paramType, put_Overwrite = True\<rparr>;
          (err, w') = updateParameter name value paramType w
      in trace w' = trace w @ [Put req]
         \<and> err = (case faults w of Some e # fs \<Rightarrow> Some e | _ \<Rightarrow> None))"
proof -
  note run = updateParameterWithRetry_run [of m name "value" paramType w]
  have once: "(let req = \<lparr>put_Name = name, put_Value = value, put_Type = paramType,
                            put_Overwrite = True\<rparr>;
                   (err, w') = updateParameter name value paramType w
               in trace w' = trace w @ [Put req]
                  \<and> err = (case faults w of Some e # fs \<Rightarrow> Some e | _ \<Rightarrow> None))"
    by (auto simp: updateParameter_def svc_PutParameter_overwrite Let_def
          split: list.splits option.splits)
  show ?thesis
  proof (cases "leading_faults w < 5")
    case True
    then have "min (leading_faults w) 5 = leading_faults w"
      and "min (Suc (leading_faults w)) 5 = Suc (leading_faults w)" by simp_all
    with True have "(let k = leading_faults w;
        req = \<lparr>put_Name = name, put_Value = value, put_Type = paramType, put_Overwrite = True\<rparr>;
        (err, w') = SSMManager_updateParameterWithRetry m name value paramType w
    in trace w' = trace w @ concat (replicate (min k 5) [Put req, Sleep 200])
                          @ (if k < 5 then [Put req] else [])
       \<and> puts_of (drop (length (trace w)) (trace w')) = replicate (min (Suc k) 5) req
       \<and> err = (if k < 5 then None
                 else Some (Errorf ''failed to update parameter after 5 attempts'')))"
      by (simp add: run Let_def puts_of_append puts_of_attempts replicate_append_same)
    with once show ?thesis by blast
  next
    case False
    then have "min (leading_faults w) 5 = 5" and "min (Suc (leading_faults w)) 5 = 5"
      by simp_all
    with False have "(let k = leading_faults w;
        req = \<lparr>put_Name = name, put_Value = value, put_Type = paramType, put_Overwrite = True\<rparr>;
        (err, w') = SSMManager_updateParameterWithRetry m name value paramType w
    in trace w' = trace w @ concat (replicate (min k 5) [Put req, Sleep 200])
                          @ (if k < 5 then [Put req] else [])
       \<and> puts_of (drop (length (trace w)) (trace w')) = replicate (min (Suc k) 5) req
       \<and> err = (if k < 5 then None
                 else Some (Errorf ''failed to update parameter after 5 attempts'')))"
      by (simp add: run Let_def puts_of_append puts_of_attempts del: replicate.simps)
    with once show ?thesis by blast
  qed
qed

section \<open>What a call changes\<close>

text \<open>Each lemma gives the events a call adds to the trace and what it leaves as it
  was.\<close>

lemma leading_faults_0: "leading_faults w = 0 \<longleftrightarrow> (case faults w of Some e # fs \<Rightarrow> False | _ \<Rightarrow> True)"
  by (auto simp: leading_faults_def split: list.splits option.splits)

lemma fetch_pages_frame:
  "fetch_pages prefix tok ps w = (r, w') \<Longrightarrow>
   store w' = store w \<and> faults w' = faults w \<and> keys w' = keys w \<and> rl_fault w' = rl_fault w
   \<and> (\<exists>evs. trace w' = trace w @ evs \<and> puts_of evs = [])"
proof (induction prefix tok ps w arbitrary: r w' rule: fetch_pages.induct)
  case (1 prefix nextToken parameters w)
  let ?inp = "\<lparr>get_Path = prefix, get_Recursive = False, get_WithDecryption = True,
              get_NextToken = nextToken\<rparr>"
  obtain a w1 where call: "svc_GetParametersByPath ?inp w = (a, w1)"
    by (cases "svc_GetParametersByPath ?inp w")
  then have w1: "store w1 = store w \<and> faults w1 = faults w \<and> keys w1 = keys w
      \<and> rl_fault w1 = rl_fault w \<and> trace w1 = trace w @ [Get ?inp]"
    by (auto simp: svc_GetParametersByPath_def emit_def split: list.splits)
  show ?case
  proof (cases a)
    case (Inl err)
    with "1.prems" call w1 show ?thesis
      by (subst (asm) fetch_pages.simps) auto
  next
    case (Inr pg)
    obtain page t where pg: "pg = (page, t)" by (cases pg)
    show ?thesis
    proof (cases t)
      case None
      with "1.prems" call w1 Inr pg show ?thesis
        by (subst (asm) fetch_pages.simps) auto
    next
      case (Some token)
      with "1.prems" call Inr pg
      have rec: "fetch_pages prefix (Some token) (parameters @ page) w1 = (r, w')"
        by (subst (asm) fetch_pages.simps) auto
      from "1.IH" [OF call [symmetric] _ _ _ rec] Inr pg Some
      have "store w' = store w1 \<and> faults w' = faults w1 \<and> keys w' = keys w1
          \<and> rl_fault w' = rl_fault w1 \<and> (\<exists>evs. trace w' = trace w1 @ evs \<and> puts_of evs = [])"
        by simp
      with w1 show ?thesis by auto
    qed
  qed
qed

lemma main_edit_effect:
  "main_edit prefix debugFlag secureFlag latestParam params index result w = (c, l', w') \<Longrightarrow>
   (\<exists>evs. trace w' = trace w @ evs \<and>
     ((puts_of evs = [] \<and> l' = latestParam \<and> store w' = store w \<and> faults w' = faults w)
      \<or> (\<exists>req. puts_of evs = [req] \<and> put_Overwrite req \<and> c = Continue
             \<and> put_Name req = prefix @ hd (SplitN2 result '' = '')
             \<and> put_Type req = Type (params ! (index - 1))
             \<and> index - 1 < length params
             \<and> (if leading_faults w = 0
                 then l' = Some \<lparr>Name = put_Name req, Value = put_Value req, Type = put_Type req\<rparr>
                      \<and> store w' = (store w)(put_Name req \<mapsto> (put_Value req, put_Type req))
                 else l' = latestParam \<and> store w' = store w))))"
  unfolding main_edit_def updateParameter_def svc_PutParameter_overwrite ReadlineWithDefault_def
    readline_NewEx_def print_def emit_def Let_def leading_faults_0
  by (auto split: prod.splits sum.splits list.splits option.splits if_splits)


lemma svc_PutParameter_create:
  "svc_PutParameter
     \<lparr>put_Name = name, put_Value = value, put_Type = paramType, put_Overwrite = False\<rparr> w =
     (let w1 = w\<lparr>faults := tl (faults w),
                 trace := trace w @ [Put \<lparr>put_Name = name, put_Value = value, put_Type = paramType,
                                     put_Overwrite = False\<rparr>]\<rparr>
      in case faults w of
           Some err # fs \<Rightarrow> (Some err, w1)
         | _ \<Rightarrow>
           (if store w name \<noteq> None
            then (Some (AwsError ''ParameterAlreadyExists: The parameter already exists.''), w1)
            else (None, w1\<lparr>store := (store w)(name \<mapsto> (value, paramType))\<rparr>)))"
  by (auto simp: svc_PutParameter_def emit_def Let_def split: list.splits option.splits)

lemma createNewParameter_effect:
  "createNewParameter prefix quiet w = (err, w') \<Longrightarrow>
   (\<exists>evs. trace w' = trace w @ evs \<and>
     (case puts_of evs of
        [] \<Rightarrow> err \<noteq> None \<and> store w' = store w \<and> faults w' = faults w
      | [req] \<Rightarrow>
          \<not> put_Overwrite req
          \<and> (if leading_faults w = 0 \<and> store w (put_Name req) = None
              then err = None
                   \<and> store w' = (store w)(put_Name req \<mapsto> (put_Value req, put_Type req))
              else err \<noteq> None \<and> store w' = store w)
      | _ \<Rightarrow> False))"
  unfolding createNewParameter_def svc_PutParameter_create Prompt_Run_def Select_Run_def
    next_key_def print_def emit_def Let_def leading_faults_0
  by (auto split: list.split_asm key.split_asm option.split_asm if_split_asm)

lemma Select_Run_frame:
  "Select_Run items w = (r, w') \<Longrightarrow>
   trace w' = trace w \<and> store w' = store w \<and> faults w' = faults w \<and> rl_fault w' = rl_fault w"
  by (auto simp: Select_Run_def next_key_def split: list.splits key.splits if_splits)

lemma main_iteration_effect:
  assumes "main_iteration prefix debugFlag secureFlag latestParam w = (c, l', w')"
  shows "\<exists>evs. trace w' = trace w @ evs \<and>
     ((puts_of evs = [] \<and> l' = latestParam \<and> store w' = store w)
      \<or> (\<exists>req. puts_of evs = [req] \<and> \<not> put_Overwrite req \<and> l' = latestParam)
      \<or> (\<exists>req. puts_of evs = [req] \<and> put_Overwrite req \<and> leading_faults w = 0
            \<and> l' = Some \<lparr>Name = put_Name req, Value = put_Value req, Type = put_Type req\<rparr>
            \<and> store w' = (store w)(put_Name req \<mapsto> (put_Value req, put_Type req)))
      \<or> (\<exists>req. puts_of evs = [req] \<and> put_Overwrite req \<and> leading_faults w \<noteq> 0
            \<and> l' = latestParam \<and> store w' = store w))"
proof -
  obtain r w1 where fetch: "fetchParameters prefix w = (r, w1)"
    by (cases "fetchParameters prefix w")
  from fetch_pages_frame [OF fetch [unfolded fetchParameters_def]]
  obtain evs1 where w1: "store w1 = store w" "faults w1 = faults w"
      "trace w1 = trace w @ evs1" "puts_of evs1 = []"
    by blast
  show ?thesis
  proof (cases r)
    case (Inl err)
    with assms fetch w1 show ?thesis
      by (auto simp: main_iteration_def main_select_def print_def emit_def puts_of_append)
  next
    case (Inr fetched)
    let ?params = "sortByName (updateWithLatest latestParam fetched)"
    let ?items = "''Create new variable'' # formatParameters ?params secureFlag"
    obtain s w2 where sel: "Select_Run ?items w1 = (s, w2)"
      by (cases "Select_Run ?items w1")
    from Select_Run_frame [OF sel] w1
    have w2: "store w2 = store w" "faults w2 = faults w" "trace w2 = trace w @ evs1"
      by simp_all
    then have lf: "leading_faults w2 = leading_faults w" by (simp add: leading_faults_def)
    show ?thesis
    proof (cases s)
      case (Inl err)
      with assms fetch Inr sel w2 w1 show ?thesis
        by (auto simp: main_iteration_def main_select_def print_def emit_def puts_of_append Let_def
                 split: if_splits)
    next
      case pick: (Inr p)
      obtain index result where p: "p = (index, result)" by (cases p)
      show ?thesis
      proof (cases "index = 0")
        case True
        obtain e w3 where cr: "createNewParameter prefix debugFlag w2 = (e, w3)"
          by (cases "createNewParameter prefix debugFlag w2")
        from createNewParameter_effect [OF cr] obtain evs2 where
          t2: "trace w3 = trace w2 @ evs2" and
          c2: "case puts_of evs2 of
                 [] \<Rightarrow> e \<noteq> None \<and> store w3 = store w2 \<and> faults w3 = faults w2
               | [req] \<Rightarrow>
                   \<not> put_Overwrite req
                   \<and> (if leading_faults w2 = 0 \<and> store w2 (put_Name req) = None
                       then e = None
                            \<and> store w3 = (store w2)(put_Name req \<mapsto> (put_Value req, put_Type req))
                       else e \<noteq> None \<and> store w3 = store w2)
               | _ \<Rightarrow> False"
          by blast
        from c2 have "(puts_of evs2 = [] \<and> e \<noteq> None \<and> store w3 = store w2)
               \<or> (\<exists>req. puts_of evs2 = [req] \<and> \<not> put_Overwrite req)"
          by (simp split: list.split_asm)
        with t2 have
          e2: "trace w3 = trace w2 @ evs2"
              "(puts_of evs2 = [] \<and> e \<noteq> None \<and> store w3 = store w2)
               \<or> (\<exists>req. puts_of evs2 = [req] \<and> \<not> put_Overwrite req)"
          by simp_all
        from assms fetch Inr sel pick p True cr
        have res: "l' = latestParam \<and> (\<exists>evs3. trace w' = trace w3 @ evs3 \<and> puts_of evs3 = []
                     \<and> store w' = store w3)"
          by (auto simp: main_iteration_def main_select_def Let_def print_def emit_def split: option.splits)
        then obtain evs3 where e3: "trace w' = trace w3 @ evs3" "puts_of evs3 = []"
            "store w' = store w3" by blast
        have "trace w' = trace w @ (evs1 @ evs2 @ evs3)"
          using e3 e2 w2 by simp
        moreover have "puts_of (evs1 @ evs2 @ evs3) = puts_of evs2"
          using w1 e3 by (simp add: puts_of_append)
        ultimately show ?thesis using e2 res e3 w2 by (intro exI [of _ "evs1 @ evs2 @ evs3"]) auto
      next
        case False
        with assms fetch Inr sel pick p
        have ed: "main_edit prefix debugFlag secureFlag latestParam ?params index result w2
                    = (c, l', w')"
          by (simp add: main_iteration_def main_select_def Let_def)
        from main_edit_effect [OF ed] obtain evs2 where
          e2: "trace w' = trace w2 @ evs2"
              "(puts_of evs2 = [] \<and> l' = latestParam \<and> store w' = store w2)
               \<or> (\<exists>req. puts_of evs2 = [req] \<and> put_Overwrite req
                    \<and> (if leading_faults w2 = 0
                        then l' = Some \<lparr>Name = put_Name req, Value = put_Value req,
                                        Type = put_Type req\<rparr>
                             \<and> store w' = (store w2)(put_Name req \<mapsto> (put_Value req, put_Type req))
                        else l' = latestParam \<and> store w' = store w2))"
          by auto
        have "trace w' = trace w @ (evs1 @ evs2)" using e2 w2 by simp
        moreover have "puts_of (evs1 @ evs2) = puts_of evs2"
          using w1 by (simp add: puts_of_append)
        ultimately show ?thesis using e2 w2 lf
          by (intro exI [of _ "evs1 @ evs2"]) (auto split: if_splits)
      qed
    qed
  qed
qed


lemma SSMManager_promptForNewValue_frame:
  "SSMManager_promptForNewValue m cur w = (r, w') \<Longrightarrow>
   trace w' = trace w \<and> store w' = store w \<and> faults w' = faults w"
  by (auto simp: SSMManager_promptForNewValue_def ReadlineWithDefault_def readline_NewEx_def
        split: option.split_asm prod.split_asm sum.split_asm if_split_asm)

lemma SSMManager_updateParameter_effect:
  assumes "SSMManager_updateParameter m params selection w = (err, m', w')"
  shows "\<exists>evs. trace w' = trace w @ evs \<and>
     ((puts_of evs = [] \<and> m' = m \<and> store w' = store w \<and> faults w' = faults w)
      \<or> (\<exists>req param.
            find (\<lambda>p. Name p = m_prefix m @ hd (SplitN2 selection '' = '')) params = Some param
            \<and> put_Name req = Name param \<and> put_Type req = Type param \<and> put_Overwrite req
            \<and> put_Value req \<noteq> Value param
            \<and> (if leading_faults w < 5
                then puts_of evs = replicate (Suc (leading_faults w)) req \<and> err = None
                     \<and> m' = m\<lparr>m_latestParam :=
                               Some \<lparr>Name = put_Name req, Value = put_Value req,
                                     Type = put_Type req\<rparr>\<rparr>
                     \<and> store w' = (store w)(put_Name req \<mapsto> (put_Value req, put_Type req))
                else puts_of evs = replicate 5 req
                     \<and> err = Some (Errorf
                          ''error updating parameter: failed to update parameter after 5 attempts'')
                     \<and> m' = m \<and> store w' = store w)))"
proof -
  let ?full = "m_prefix m @ hd (SplitN2 selection '' = '')"
  show ?thesis
  proof (cases "find (\<lambda>p. Name p = ?full) params")
    case None
    with assms show ?thesis by (simp add: SSMManager_updateParameter_def Let_def)
  next
    case (Some param)
    then have name: "Name param = ?full" by (auto simp: find_Some_iff)
    let ?w1 = "if \<not> m_quiet m
               then print (''Current value: '' @ Value param @ NL)
                      (print (''Updating parameter: '' @ ?full @ NL) w)
               else w"
    obtain evs1 where w1: "trace ?w1 = trace w @ evs1" "puts_of evs1 = []"
        "store ?w1 = store w" "faults ?w1 = faults w"
      by (cases "m_quiet m") (auto simp: print_def emit_def)
    obtain r w2 where pr: "SSMManager_promptForNewValue m (Value param) ?w1 = (r, w2)"
      by (cases "SSMManager_promptForNewValue m (Value param) ?w1")
    from SSMManager_promptForNewValue_frame [OF pr] w1
    have w2: "trace w2 = trace w @ evs1" "store w2 = store w" "faults w2 = faults w"
      by simp_all
    then have lf: "leading_faults w2 = leading_faults w" by (simp add: leading_faults_def)
    show ?thesis
    proof (cases r)
      case (Inl e)
      with assms Some pr w2 w1 show ?thesis
        by (auto simp: SSMManager_updateParameter_def Let_def)
    next
      case (Inr newValue)
      show ?thesis
      proof (cases "newValue = Value param")
        case True
        with assms Some pr Inr w2 w1 show ?thesis
          by (auto simp: SSMManager_updateParameter_def Let_def print_def emit_def
                puts_of_append)
      next
        case False
        let ?req = "\<lparr>put_Name = ?full, put_Value = newValue, put_Type = Type param,
                     put_Overwrite = True\<rparr>"
        show ?thesis
        proof (cases "leading_faults w < 5")
          case True
          let ?evs = "evs1 @ concat (replicate (leading_faults w) [Put ?req, Sleep 200])
                        @ [Put ?req] @ (if \<not> m_quiet m
                                        then [Print (''Parameter updated successfully.'' @ NL)]
                                        else [])"
          from assms Some pr Inr False True lf w2
          have "err = None
              \<and> m' = m\<lparr>m_latestParam := Some \<lparr>Name = ?full, Value = newValue, Type = Type param\<rparr>\<rparr>
              \<and> store w' = (store w)(?full \<mapsto> (newValue, Type param))
              \<and> trace w' = trace w @ ?evs"
            by (auto simp: SSMManager_updateParameter_def Let_def updateParameterWithRetry_run
                  print_def emit_def)
          moreover have "puts_of ?evs = replicate (Suc (leading_faults w)) ?req"
            using w1 by (simp add: puts_of_append puts_of_attempts replicate_append_same)
          ultimately show ?thesis using Some name False True
            by (intro exI [of _ ?evs] conjI disjI2 exI [of _ ?req] exI [of _ param]) simp_all
        next
          case nope: False
          let ?evs = "evs1 @ concat (replicate 5 [Put ?req, Sleep 200])"
          from assms Some pr Inr False nope lf w2
          have "err = Some (Errorf
                  ''error updating parameter: failed to update parameter after 5 attempts'')
              \<and> m' = m \<and> store w' = store w \<and> trace w' = trace w @ ?evs"
            by (auto simp: SSMManager_updateParameter_def Let_def updateParameterWithRetry_run)
          moreover have "puts_of ?evs = replicate 5 ?req"
            using w1 by (simp add: puts_of_append puts_of_attempts del: replicate.simps)
          ultimately show ?thesis using Some name False nope
            by (intro exI [of _ ?evs] conjI disjI2 exI [of _ ?req] exI [of _ param]) simp_all
        qed
      qed
    qed
  qed
qed

section \<open>Evaluation\<close>

lemmas world_calls =
  svc_GetParametersByPath_def svc_PutParameter_def emit_def print_def log_Printf_def
  time_Sleep_def next_key_def Prompt_Run_def Select_Run_def readline_NewEx_def
  ReadlineWithDefault_def reader_ReadString_def

lemmas SSMManager_defs =
  SSMManager_getPrefix_def SSMManager_fetchParameters_def SSMManager_promptForAction_def
  SSMManager_promptForInput_def SSMManager_promptForParamType_def
  SSMManager_promptForNewValue_def SSMManager_updateParameterWithRetry_def
  SSMManager_createNewParameter_def SSMManager_updateParameter_def SSMManager_run_def
  SSMManager_main_def updateParameterWithRetry_loop.simps fetch_pages.simps
  updateWithLatest_def sortByName_def maxRetries_def retryDelay_def ensureTrailingSlash_def

lemmas main_defs =
  fetchParameters_def updateParameter_def createNewParameter_def main_edit_def
  main_iteration_def main_select_def main_def fetch_pages.simps updateWithLatest_def sortByName_def
  SplitN2_def TrimSpace_def spaces_def NL_def

section \<open>Writes without retry\<close>

text \<open>C3, as stated, fails in \<open>part_001\<close>, which has no retry: when the service
  fails every write, the edit makes one attempt, prints the error of the service and
  continues.\<close>

theorem part_001_persists_once:
  "(let w = \<lparr>responses = [Inr ([\<lparr>Name = ''/app/test/B'', Value = ''2'', Type = ''String''\<rparr>],
                              None)],
             store = [''/app/test/B'' \<mapsto> (''2'', ''String'')],
             faults = replicate 5 (Some (AwsError ''ThrottlingException'')),
             rl_fault = None, keys = [Pick 1, Enter ''3''], trace = []\<rparr>;
        (c, l', w') = main_iteration ''/app/test/'' False False None w
    in c = Continue \<and> l' = None
       \<and> trace w' =
           [Get \<lparr>get_Path = ''/app/test/'', get_Recursive = False, get_WithDecryption = True,
                 get_NextToken = None\<rparr>,
            Put \<lparr>put_Name = ''/app/test/B'', put_Value = ''3'', put_Type = ''String'',
                 put_Overwrite = True\<rparr>,
            Print (''Error updating parameter: ThrottlingException'' @ NL)])"
  by (simp add: world_calls main_defs Let_def eval_nat_numeral)

section \<open>Edits and the latest write\<close>

text \<open>
  C5 (as amended). During the edit of an entry, with the line the user submits trimmed of
  surrounding white space:
  \<^item> in \<open>part_001\<close>, when the trimmed line is empty or equal to the text the line editor
    was filled with (the current value with secure mode off, the empty string with
    secure mode on), no write is issued, \<open>latestParam\<close> and the store are as before, and
    the loop continues with the next listing;
  \<^item> in \<open>SSMManager.updateParameter\<close>, when the trimmed line is equal to the current value,
    no write is issued, the manager and the store are as before, and \<open>nil\<close> is returned.
\<close>

theorem no_op_edit:
  "(index - 1 < length params \<and> rl_fault w = None \<and> keys w = Enter line # ks
      \<and> (TrimSpace line = [] \<or>
          TrimSpace line = (if secureFlag then [] else Value (params ! (index - 1)))) \<longrightarrow>
      (case main_edit prefix debugFlag secureFlag latestParam params index result w of
         (c, l', w') \<Rightarrow>
           c = Continue \<and> l' = latestParam \<and> puts_of (trace w') = puts_of (trace w)
           \<and> store w' = store w))
   \<and> (find (\<lambda>p. Name p = m_prefix m @ hd (SplitN2 selection '' = '')) ps = Some param
      \<and> rl_fault w = None \<and> keys w = Enter line # ks \<and> TrimSpace line = Value param \<longrightarrow>
      (case SSMManager_updateParameter m ps selection w of
         (err, m', w') \<Rightarrow>
           err = None \<and> m' = m \<and> puts_of (trace w') = puts_of (trace w)
           \<and> store w' = store w))"
proof (intro conjI impI)
  assume a: "index - 1 < length params \<and> rl_fault w = None \<and> keys w = Enter line # ks
      \<and> (TrimSpace line = [] \<or>
          TrimSpace line = (if secureFlag then [] else Value (params ! (index - 1))))"
  then show "case main_edit prefix debugFlag secureFlag latestParam params index result w of
         (c, l', w') \<Rightarrow>
           c = Continue \<and> l' = latestParam \<and> puts_of (trace w') = puts_of (trace w)
           \<and> store w' = store w"
    by (auto simp: main_edit_def Let_def ReadlineWithDefault_def readline_NewEx_def next_key_def
          print_def emit_def puts_of_append)
next
  assume "find (\<lambda>p. Name p = m_prefix m @ hd (SplitN2 selection '' = '')) ps = Some param
      \<and> rl_fault w = None \<and> keys w = Enter line # ks \<and> TrimSpace line = Value param"
  then show "case SSMManager_updateParameter m ps selection w of
         (err, m', w') \<Rightarrow>
           err = None \<and> m' = m \<and> puts_of (trace w') = puts_of (trace w)
           \<and> store w' = store w"
    by (auto simp: SSMManager_updateParameter_def SSMManager_promptForNewValue_def Let_def
          ReadlineWithDefault_def readline_NewEx_def next_key_def print_def emit_def
          puts_of_append)
qed

theorem no_op_edit_witness:
  "(case main_edit ''/app/test/'' False False None
           [\<lparr>Name = ''/app/test/KEY'', Value = ''v'', Type = ''String''\<rparr>] 1 ''KEY = v''
           \<lparr>responses = [], store = [''/app/test/KEY'' \<mapsto> (''v'', ''String'')], faults = [],
            rl_fault = None, keys = [Enter '' v ''], trace = []\<rparr> of
      (c, l', w') \<Rightarrow> c = Continue \<and> l' = None \<and> puts_of (trace w') = [])
   \<and> (case SSMManager_updateParameter
           \<lparr>m_prefix = ''/app/test/'', m_latestParam = None, m_quiet = True\<rparr>
           [\<lparr>Name = ''/app/test/KEY'', Value = ''v'', Type = ''String''\<rparr>] ''KEY = v''
           \<lparr>responses = [], store = [''/app/test/KEY'' \<mapsto> (''v'', ''String'')], faults = [],
            rl_fault = None, keys = [Enter '' v ''], trace = []\<rparr> of
      (err, m', w') \<Rightarrow> err = None \<and> m_latestParam m' = None \<and> puts_of (trace w') = [])"
proof -
  let ?ps = "[\<lparr>Name = ''/app/test/KEY'', Value = ''v'', Type = ''String''\<rparr>]"
  let ?w = "\<lparr>responses = [], store = [''/app/test/KEY'' \<mapsto> (''v'', ''String'')], faults = [],
            rl_fault = None, keys = [Enter '' v ''], trace = []\<rparr>"
  let ?m = "\<lparr>m_prefix = ''/app/test/'', m_latestParam = None, m_quiet = True\<rparr>"
  have trim: "TrimSpace '' v '' = ''v''"
    by (simp add: TrimSpace_def spaces_def)
  have h1: "1 - 1 < length ?ps \<and> rl_fault ?w = None \<and> keys ?w = Enter '' v '' # []
      \<and> (TrimSpace '' v '' = [] \<or>
          TrimSpace '' v '' = (if False then [] else Value (?ps ! (1 - 1))))"
    by (simp add: trim)
  have h2: "find (\<lambda>p. Name p = m_prefix ?m @ hd (SplitN2 ''KEY = v'' '' = '')) ?ps
        = Some \<lparr>Name = ''/app/test/KEY'', Value = ''v'', Type = ''String''\<rparr>
      \<and> rl_fault ?w = None \<and> keys ?w = Enter '' v '' # []
      \<and> TrimSpace '' v '' = Value \<lparr>Name = ''/app/test/KEY'', Value = ''v'', Type = ''String''\<rparr>"
    by (simp add: trim SplitN2_def)
  from no_op_edit [where index = 1 and params = ?ps and w = ?w and line = "'' v ''"
      and ks = "[]" and secureFlag = False and m = ?m and selection = "''KEY = v''" and ps = ?ps
      and param = "\<lparr>Name = ''/app/test/KEY'', Value = ''v'', Type = ''String''\<rparr>"
      and prefix = "''/app/test/''" and debugFlag = False and latestParam = None
      and result = "''KEY = v''"] h1 h2
  show ?thesis
    by (auto split: prod.splits)
qed

text \<open>C5, as stated, fails in \<open>part_001\<close> with secure mode on: the line editor is
  filled with the empty string, so a line equal to the current value counts as a change;
  it is written and becomes \<open>latestParam\<close>.\<close>

theorem no_op_edit_secure_rewrites:
  "(let w = \<lparr>responses = [Inr ([\<lparr>Name = ''/app/test/KEY'', Value = ''hunter2'',
                                   Type = ''SecureString''\<rparr>], None)],
             store = [''/app/test/KEY'' \<mapsto> (''hunter2'', ''SecureString'')], faults = [],
             rl_fault = None, keys = [Pick 1, Enter ''hunter2''], trace = []\<rparr>;
        (c, l', w') = main_iteration ''/app/test/'' False True None w
    in l' = Some \<lparr>Name = ''/app/test/KEY'', Value = ''hunter2'', Type = ''SecureString''\<rparr>
       \<and> puts_of (trace w') = [\<lparr>put_Name = ''/app/test/KEY'', put_Value = ''hunter2'',
                                 put_Type = ''SecureString'', put_Overwrite = True\<rparr>])"
  by (simp add: world_calls main_defs Let_def)

text \<open>\<open>SSMManager.updateParameter\<close> compares the line with the current value only: for
  an empty line a write is sent, with the empty string as the value.\<close>

lemma SSMManager_writes_empty_value:
  "(let m = \<lparr>m_prefix = ''/app/test/'', m_latestParam = None, m_quiet = True\<rparr>;
        w = \<lparr>responses = [Inr ([\<lparr>Name = ''/app/test/KEY'', Value = ''v'',
                                   Type = ''String''\<rparr>], None)],
             store = [''/app/test/KEY'' \<mapsto> (''v'', ''String'')], faults = [],
             rl_fault = None, keys = [Pick 1, Enter []], trace = []\<rparr>;
        (err, m', w') = SSMManager_run m w
    in puts_of (trace w') = [\<lparr>put_Name = ''/app/test/KEY'', put_Value = [],
                               put_Type = ''String'', put_Overwrite = True\<rparr>])"
  by (simp add: world_calls SSMManager_defs Let_def SplitN2_def TrimSpace_def TrimPrefix_def)

text \<open>
  C6 (as amended). \<open>latestParam\<close> changes only by the edit of an entry whose write
  succeeds, and is then the entry written (the name, value and kind of the request):
  \<^item> in \<open>part_001\<close>, for one iteration of the loop of \<open>main\<close>: after a write with
    \<open>Overwrite\<close> set (an edit) that the service accepts, \<open>latestParam\<close> is the entry
    written and the store holds it; when the service fails the write, after a write
    with \<open>Overwrite\<close> unset (a create, accepted or not), and when no write is issued,
    \<open>latestParam\<close> is as before;
  \<^item> in \<open>SSMManager.updateParameter\<close>: when it returns \<open>nil\<close> after writing,
    \<open>latestParam\<close> is the entry of its last request and the store holds it; when it
    returns an error, and when it has written nothing, the manager is as before;
  \<^item> in \<open>SSMManager.run\<close>, the manager is as before after \<open>createNewParameter\<close>.
\<close>

theorem latest_write_after_persist:
  "(main_iteration prefix debugFlag secureFlag latestParam w = (c, l', w') \<longrightarrow>
      (\<forall>req. puts_of (trace w') = puts_of (trace w) @ [req] \<and> put_Overwrite req
             \<and> leading_faults w = 0 \<longrightarrow>
           l' = Some \<lparr>Name = put_Name req, Value = put_Value req, Type = put_Type req\<rparr>
           \<and> store w' (put_Name req) = Some (put_Value req, put_Type req))
      \<and> (leading_faults w \<noteq> 0 \<longrightarrow> l' = latestParam)
      \<and> (\<forall>req. puts_of (trace w') = puts_of (trace w) @ [req] \<and> \<not> put_Overwrite req \<longrightarrow>
           l' = latestParam)
      \<and> (puts_of (trace w') = puts_of (trace w) \<longrightarrow> l' = latestParam))
   \<and> (SSMManager_updateParameter m params selection w = (err, m', w') \<longrightarrow>
      (err = None \<and> puts_of (trace w') \<noteq> puts_of (trace w) \<longrightarrow>
         m_latestParam m' =
           Some \<lparr>Name = put_Name (last (puts_of (trace w'))),
                 Value = put_Value (last (puts_of (trace w'))),
                 Type = put_Type (last (puts_of (trace w')))\<rparr>
         \<and> store w' (put_Name (last (puts_of (trace w')))) =
             Some (put_Value (last (puts_of (trace w'))), put_Type (last (puts_of (trace w')))))
      \<and> (err \<noteq> None \<longrightarrow> m' = m)
      \<and> (puts_of (trace w') = puts_of (trace w) \<longrightarrow> m' = m))
   \<and> (SSMManager_fetchParameters m w = (Inr params, w1)
      \<and> SSMManager_promptForAction m params w1 = (Inr ''create'', w2)
      \<and> SSMManager_run m w = (err, m', w') \<longrightarrow> m' = m)"
proof -
  have part1: "(\<forall>req. puts_of (trace w') = puts_of (trace w) @ [req] \<and> put_Overwrite req
             \<and> leading_faults w = 0 \<longrightarrow>
           l' = Some \<lparr>Name = put_Name req, Value = put_Value req, Type = put_Type req\<rparr>
           \<and> store w' (put_Name req) = Some (put_Value req, put_Type req))
      \<and> (leading_faults w \<noteq> 0 \<longrightarrow> l' = latestParam)
      \<and> (\<forall>req. puts_of (trace w') = puts_of (trace w) @ [req] \<and> \<not> put_Overwrite req \<longrightarrow>
           l' = latestParam)
      \<and> (puts_of (trace w') = puts_of (trace w) \<longrightarrow> l' = latestParam)"
    if run: "main_iteration prefix debugFlag secureFlag latestParam w = (c, l', w')"
  proof -
  from main_iteration_effect [OF run] obtain evs where
    t: "trace w' = trace w @ evs" and
    d: "(puts_of evs = [] \<and> l' = latestParam \<and> store w' = store w)
      \<or> (\<exists>req. puts_of evs = [req] \<and> \<not> put_Overwrite req \<and> l' = latestParam)
      \<or> (\<exists>req. puts_of evs = [req] \<and> put_Overwrite req \<and> leading_faults w = 0
            \<and> l' = Some \<lparr>Name = put_Name req, Value = put_Value req, Type = put_Type req\<rparr>
            \<and> store w' = (store w)(put_Name req \<mapsto> (put_Value req, put_Type req)))
      \<or> (\<exists>req. puts_of evs = [req] \<and> put_Overwrite req \<and> leading_faults w \<noteq> 0
            \<and> l' = latestParam \<and> store w' = store w)"
    by blast
  have p: "puts_of (trace w') = puts_of (trace w) @ puts_of evs"
    using t by (simp add: puts_of_append)
  show ?thesis using d p by auto
  qed
  have part2: "(err = None \<and> puts_of (trace w') \<noteq> puts_of (trace w) \<longrightarrow>
         m_latestParam m' =
           Some \<lparr>Name = put_Name (last (puts_of (trace w'))),
                 Value = put_Value (last (puts_of (trace w'))),
                 Type = put_Type (last (puts_of (trace w')))\<rparr>
         \<and> store w' (put_Name (last (puts_of (trace w')))) =
             Some (put_Value (last (puts_of (trace w'))), put_Type (last (puts_of (trace w')))))
      \<and> (err \<noteq> None \<longrightarrow> m' = m)
      \<and> (puts_of (trace w') = puts_of (trace w) \<longrightarrow> m' = m)"
    if run: "SSMManager_updateParameter m params selection w = (err, m', w')"
  proof -
  from SSMManager_updateParameter_effect [OF run] obtain evs where
    t: "trace w' = trace w @ evs" and
    d: "(puts_of evs = [] \<and> m' = m \<and> store w' = store w \<and> faults w' = faults w)
      \<or> (\<exists>req param.
            find (\<lambda>p. Name p = m_prefix m @ hd (SplitN2 selection '' = '')) params = Some param
            \<and> put_Name req = Name param \<and> put_Type req = Type param \<and> put_Overwrite req
            \<and> put_Value req \<noteq> Value param
            \<and> (if leading_faults w < 5
                then puts_of evs = replicate (Suc (leading_faults w)) req \<and> err = None
                     \<and> m' = m\<lparr>m_latestParam :=
                               Some \<lparr>Name = put_Name req, Value = put_Value req,
                                     Type = put_Type req\<rparr>\<rparr>
                     \<and> store w' = (store w)(put_Name req \<mapsto> (put_Value req, put_Type req))
                else puts_of evs = replicate 5 req
                     \<and> err = Some (Errorf
                          ''error updating parameter: failed to update parameter after 5 attempts'')
                     \<and> m' = m \<and> store w' = store w))"
    by blast
  have p: "puts_of (trace w') = puts_of (trace w) @ puts_of evs"
    using t by (simp add: puts_of_append)
  have a: "m_latestParam m' =
           Some \<lparr>Name = put_Name (last (puts_of (trace w'))),
                 Value = put_Value (last (puts_of (trace w'))),
                 Type = put_Type (last (puts_of (trace w')))\<rparr>
         \<and> store w' (put_Name (last (puts_of (trace w')))) =
             Some (put_Value (last (puts_of (trace w'))), put_Type (last (puts_of (trace w'))))"
    if "err = None \<and> puts_of (trace w') \<noteq> puts_of (trace w)"
  proof -
    from that d p obtain req where
      "puts_of evs = replicate (Suc (leading_faults w)) req"
      "m' = m\<lparr>m_latestParam :=
               Some \<lparr>Name = put_Name req, Value = put_Value req, Type = put_Type req\<rparr>\<rparr>"
      "store w' = (store w)(put_Name req \<mapsto> (put_Value req, put_Type req))"
      by (auto split: if_split_asm)
    moreover from this p have "last (puts_of (trace w')) = req"
      by (simp del: replicate.simps)
    ultimately show ?thesis by simp
  qed
  have b: "m' = m" if "err \<noteq> None"
    using that d by (auto split: if_split_asm)
  have c: "m' = m" if "puts_of (trace w') = puts_of (trace w)"
    using that d p by (auto split: if_split_asm)
  show ?thesis using a b c by blast
  qed
  have part3: "m' = m"
    if "SSMManager_fetchParameters m w = (Inr params, w1)
      \<and> SSMManager_promptForAction m params w1 = (Inr ''create'', w2)
      \<and> SSMManager_run m w = (err, m', w')"
    using that by (auto simp: SSMManager_run_def split: prod.split_asm)
  show ?thesis using part1 part2 part3 by blast
qed

theorem latest_write_after_persist_witness:
  "fst (snd (main_iteration ''/app/test/'' False False None
       \<lparr>responses = [Inr ([\<lparr>Name = ''/app/test/B'', Value = ''2'', Type = ''String''\<rparr>], None)],
        store = [''/app/test/B'' \<mapsto> (''2'', ''String'')], faults = [],
        rl_fault = None, keys = [Pick 1, Enter ''3''], trace = []\<rparr>))
   = Some \<lparr>Name = ''/app/test/B'', Value = ''3'', Type = ''String''\<rparr>"
proof -
  let ?w = "\<lparr>responses = [Inr ([\<lparr>Name = ''/app/test/B'', Value = ''2'', Type = ''String''\<rparr>], None)],
        store = [''/app/test/B'' \<mapsto> (''2'', ''String'')], faults = [],
        rl_fault = None, keys = [Pick 1, Enter ''3''], trace = []\<rparr>"
  let ?req = "\<lparr>put_Name = ''/app/test/B'', put_Value = ''3'', put_Type = ''String'',
               put_Overwrite = True\<rparr>"
  obtain c l' w' where run: "main_iteration ''/app/test/'' False False None ?w = (c, l', w')"
    by (cases "main_iteration ''/app/test/'' False False None ?w")
  then have "puts_of (trace w') = puts_of (trace ?w) @ [?req]"
    by (auto simp: world_calls main_defs Let_def)
  moreover have "put_Overwrite ?req" and "leading_faults ?w = 0"
    by (simp_all add: leading_faults_def)
  ultimately have "l' = Some \<lparr>Name = put_Name ?req, Value = put_Value ?req, Type = put_Type ?req\<rparr>"
    using latest_write_after_persist [where w = ?w and w' = w' and l' = l' and c = c
        and prefix = "''/app/test/''" and debugFlag = False and secureFlag = False
        and latestParam = None] run
    by blast
  with run show ?thesis by simp
qed

text \<open>C6, as stated, fails for a create: the write is accepted and the store holds
  the new entry, and \<open>latestParam\<close> is still empty, in \<open>part_001\<close> and in \<open>SSMManager\<close>.\<close>

theorem create_leaves_latest_write:
  "(let w = \<lparr>responses = [Inr ([], None)], store = Map.empty, faults = [], rl_fault = None,
             keys = [Pick 0, Enter ''C'', Enter ''3'', Pick 0], trace = []\<rparr>;
        (c, l', w') = main_iteration ''/app/test/'' False False None w
    in c = Continue
       \<and> store w' ''/app/test/C'' = Some (''3'', ''String'')
       \<and> puts_of (trace w') = [\<lparr>put_Name = ''/app/test/C'', put_Value = ''3'',
                                 put_Type = ''String'', put_Overwrite = False\<rparr>]
       \<and> l' = None)
   \<and> (let m = \<lparr>m_prefix = ''/app/test/'', m_latestParam = None, m_quiet = True\<rparr>;
        w = \<lparr>responses = [Inr ([], None)], store = Map.empty, faults = [], rl_fault = None,
             keys = [Pick 0, Enter ''C'', Enter ''3'', Pick 0], trace = []\<rparr>;
        (err, m', w') = SSMManager_run m w
    in err = None
       \<and> store w' ''/app/test/C'' = Some (''3'', ''String'')
       \<and> m_latestParam m' = None)"
  by (simp add: world_calls main_defs SSMManager_defs Let_def)

section \<open>Creating an entry\<close>

text \<open>\<open>createNewParameter\<close> of \<open>part_001\<close> sends at most one request, with \<open>Overwrite\<close>
  unset: when the name is in the store the call fails and the store is as before.\<close>

lemma createNewParameter_refuses_existing:
  assumes "createNewParameter prefix quiet w = (err, w')"
  shows "\<exists>evs. trace w' = trace w @ evs \<and> length (puts_of evs) \<le> 1 \<and>
           (\<forall>req \<in> set (puts_of evs).
              \<not> put_Overwrite req \<and>
              (store w (put_Name req) \<noteq> None \<longrightarrow> err \<noteq> None \<and> store w' = store w))"
proof -
  from createNewParameter_effect [OF assms] obtain evs where
    t: "trace w' = trace w @ evs" and
    c: "case puts_of evs of
          [] \<Rightarrow> err \<noteq> None \<and> store w' = store w \<and> faults w' = faults w
        | [req] \<Rightarrow>
            \<not> put_Overwrite req
            \<and> (if leading_faults w = 0 \<and> store w (put_Name req) = None
                then err = None
                     \<and> store w' = (store w)(put_Name req \<mapsto> (put_Value req, put_Type req))
                else err \<noteq> None \<and> store w' = store w)
        | _ \<Rightarrow> False"
    by blast
  from c have "length (puts_of evs) \<le> 1 \<and>
           (\<forall>req \<in> set (puts_of evs).
              \<not> put_Overwrite req \<and>
              (store w (put_Name req) \<noteq> None \<longrightarrow> err \<noteq> None \<and> store w' = store w))"
    by (auto split: list.split_asm if_split_asm)
  with t show ?thesis by blast
qed

text \<open>
  C1. In \<open>SSMManager.createNewParameter\<close> the write goes through
  \<open>updateParameterWithRetry\<close>, which sets \<open>Overwrite\<close>. With \<open>/app/test/A = 1\<close> in the
  store, creating \<open>A\<close> with the value \<open>9\<close> returns \<open>nil\<close>; the one request sent has
  \<open>Overwrite\<close> set and the store now holds \<open>9\<close> for \<open>/app/test/A\<close>.
\<close>

theorem SSMManager_create_overwrites_existing:
  "(let m = \<lparr>m_prefix = ''/app/test/'', m_latestParam = None, m_quiet = True\<rparr>;
        w = \<lparr>responses = [], store = [''/app/test/A'' \<mapsto> (''1'', ''String'')], faults = [],
             rl_fault = None, keys = [Enter ''A'', Enter ''9'', Pick 0], trace = []\<rparr>;
        (err, w') = SSMManager_createNewParameter m w
    in err = None
       \<and> store w ''/app/test/A'' = Some (''1'', ''String'')
       \<and> store w' ''/app/test/A'' = Some (''9'', ''String'')
       \<and> trace w' = [Put \<lparr>put_Name = ''/app/test/A'', put_Value = ''9'', put_Type = ''String'',
                            put_Overwrite = True\<rparr>])"
  by (simp add: world_calls SSMManager_defs Let_def)

section \<open>A failed read\<close>

text \<open>In \<open>part_001\<close> and in the second program of \<open>src/main.go\<close>, a read that fails ends
  the loop of \<open>main\<close>: the error is printed after the one call that failed, and nothing
  else happens.\<close>

lemma main_halts_on_read_error:
  assumes "responses w = Inl e # rs"
  shows "main_loop (Suc fuel) prefix debugFlag secureFlag latestParam w =
           Some (Return,
                 w\<lparr>responses := rs,
                   trace := trace w @
                     [Get \<lparr>get_Path = prefix, get_Recursive = False, get_WithDecryption = True,
                           get_NextToken = None\<rparr>,
                      Print (''Error fetching parameters: '' @ Error e @ NL)]\<rparr>)"
  using assms
  by (simp add: main_iteration_def main_select_def fetchParameters_def fetch_pages.simps
        svc_GetParametersByPath_def emit_def print_def)

lemma basic_main_halts_on_read_error:
  assumes "responses w = Inl e # rs"
  shows "basic_main_loop (Suc fuel) prefix w =
           Some (Return,
                 w\<lparr>responses := rs,
                   trace := trace w @
                     [Get \<lparr>get_Path = prefix, get_Recursive = False, get_WithDecryption = True,
                           get_NextToken = None\<rparr>,
                      Print (''Error fetching parameters: '' @ Error e @ NL)]\<rparr>)"
  using assms
  by (simp add: basic_main_iteration_def main_select_def fetchParameters_def fetch_pages.simps
        svc_GetParametersByPath_def emit_def print_def)

text \<open>
  C2. In the loop of \<open>main\<close> of \<open>SSMManager\<close>, an error of \<open>run\<close> other than \<open>user quit\<close> is
  logged and \<open>run\<close> is called again. When the first read fails and the second succeeds,
  the trace holds the failed read, the logged error and a second read; the loop ends
  only when the user picks \<open>Quit\<close> in the menu of the second iteration.
\<close>

theorem SSMManager_refetches_after_read_error:
  "(let m = \<lparr>m_prefix = ''/app/test/'', m_latestParam = None, m_quiet = True\<rparr>;
        w = \<lparr>responses = [Inl (AwsError ''AccessDeniedException''), Inr ([], None)],
             store = Map.empty, faults = [], rl_fault = None, keys = [Pick 1], trace = []\<rparr>
    in SSMManager_main_loop 1 m w = None
       \<and> map_option trace (SSMManager_main_loop 2 m w) =
           Some [Get \<lparr>get_Path = ''/app/test/'', get_Recursive = False,
                      get_WithDecryption = True, get_NextToken = None\<rparr>,
                 Log ''Error: error fetching parameters: AccessDeniedException'',
                 Get \<lparr>get_Path = ''/app/test/'', get_Recursive = False,
                      get_WithDecryption = True, get_NextToken = None\<rparr>])"
  by (simp add: world_calls SSMManager_defs Let_def numeral_2_eq_2)

text \<open>While no read succeeds the loop of \<open>SSMManager\<close> never ends: it reads again at
  once, whatever the number of iterations.\<close>

lemma fetch_pages_unreachable:
  "responses w = [] \<Longrightarrow>
   fetch_pages prefix nextToken parameters w =
     (Inl (AwsError ''RequestError: send request failed''),
      emit (Get \<lparr>get_Path = prefix, get_Recursive = False, get_WithDecryption = True,
                 get_NextToken = nextToken\<rparr>) w)"
  by (subst fetch_pages.simps) (simp add: svc_GetParametersByPath_def)

lemma SSMManager_main_loop_unreachable:
  "responses w = [] \<Longrightarrow> SSMManager_main_loop fuel m w = None"
proof (induction fuel arbitrary: w)
  case 0
  then show ?case by simp
next
  case (Suc fuel)
  then show ?case
    by (simp add: SSMManager_run_def SSMManager_fetchParameters_def fetch_pages_unreachable
          emit_def log_Printf_def)
qed

section \<open>Interrupts\<close>

text \<open>In \<open>part_001\<close>, Ctrl+C in the menu ends the loop of \<open>main\<close>; Ctrl+C at the prompt of
  an edit, or at one of the three prompts of a create, leaves \<open>latestParam\<close> and the store
  as they were, sends no write, and the loop continues. In \<open>SSMManager\<close>, Ctrl+C at the
  prompt of an edit or of a create makes \<open>updateParameter\<close> or \<open>createNewParameter\<close> return
  an error with no write.\<close>

lemma main_menu_interrupt_quits:
  assumes "fetchParameters prefix w = (Inr fetched, w1)" and "keys w1 = CtrlC # ks"
  shows "main_loop (Suc fuel) prefix debugFlag secureFlag latestParam w =
           Some (Return, print (NL @ ''Quitting...'' @ NL) (w1\<lparr>keys := ks\<rparr>))"
  using assms
  by (simp add: main_iteration_def main_select_def Select_Run_def next_key_def Let_def)

lemma main_edit_interrupt_continues:
  assumes "index - 1 < length params" and "rl_fault w = None" and "keys w = CtrlC # ks"
    and "main_edit prefix debugFlag secureFlag latestParam params index result w = (c, l', w')"
  shows "c = Continue \<and> l' = latestParam \<and> puts_of (trace w') = puts_of (trace w)
         \<and> store w' = store w"
  using assms
  by (auto simp: main_edit_def Let_def ReadlineWithDefault_def readline_NewEx_def next_key_def
        print_def emit_def puts_of_append split: if_split_asm)

lemma createNewParameter_interrupt:
  assumes "keys w = CtrlC # ks \<or> keys w = Enter name # CtrlC # ks
           \<or> keys w = Enter name # Enter value # CtrlC # ks"
    and "createNewParameter prefix quiet w = (err, w')"
  shows "err \<noteq> None \<and> trace w' = trace w \<and> store w' = store w"
  using assms
  by (auto simp: createNewParameter_def Prompt_Run_def Select_Run_def next_key_def)

lemma main_create_interrupt_continues:
  assumes "fetchParameters prefix w = (Inr fetched, w1)"
    and "keys w1 = Pick 0 # CtrlC # ks \<or> keys w1 = Pick 0 # Enter name # CtrlC # ks
         \<or> keys w1 = Pick 0 # Enter name # Enter value # CtrlC # ks"
    and "main_iteration prefix debugFlag secureFlag latestParam w = (c, l', w')"
  shows "c = Continue \<and> l' = latestParam \<and> puts_of (trace w') = puts_of (trace w1)
         \<and> store w' = store w1"
  using assms
  by (auto simp: main_iteration_def main_select_def Let_def createNewParameter_def Prompt_Run_def Select_Run_def
        next_key_def print_def emit_def puts_of_append)

lemma SSMManager_edit_interrupt:
  assumes "find (\<lambda>p. Name p = m_prefix m @ hd (SplitN2 selection '' = '')) params = Some param"
    and "rl_fault w = None" and "keys w = CtrlC # ks"
    and "SSMManager_updateParameter m params selection w = (err, m', w')"
  shows "err = Some (Errorf ''update cancelled'') \<and> m' = m
         \<and> puts_of (trace w') = puts_of (trace w) \<and> store w' = store w"
  using assms
  by (cases "m_quiet m")
     (auto simp: SSMManager_updateParameter_def SSMManager_promptForNewValue_def Let_def
        ReadlineWithDefault_def readline_NewEx_def next_key_def print_def emit_def
        puts_of_append)

lemma SSMManager_create_interrupt:
  assumes "keys w = CtrlC # ks \<or> keys w = Enter name # CtrlC # ks
           \<or> keys w = Enter name # Enter value # CtrlC # ks"
    and "SSMManager_createNewParameter m w = (err, w')"
  shows "err = Some ErrInterrupt \<and> trace w' = trace w \<and> store w' = store w"
  using assms
  by (auto simp: SSMManager_createNewParameter_def SSMManager_promptForInput_def
        SSMManager_promptForParamType_def Prompt_Run_def Select_Run_def next_key_def)

text \<open>
  C8. In \<open>SSMManager\<close>, Ctrl+C in the selection menu makes \<open>run\<close> return the error
  \<open>error prompting for action: ^C\<close>, which is not \<open>user quit\<close>: the loop of \<open>main\<close> logs it
  and runs again. After the interrupt the loop has not ended; the trace holds a second
  read, and the loop ends only when the user picks \<open>Quit\<close> in the second menu.
\<close>

theorem SSMManager_menu_interrupt_continues:
  "(let m = \<lparr>m_prefix = ''/app/test/'', m_latestParam = None, m_quiet = True\<rparr>;
        w = \<lparr>responses = [Inr ([], None), Inr ([], None)], store = Map.empty, faults = [],
             rl_fault = None, keys = [CtrlC, Pick 1], trace = []\<rparr>
    in SSMManager_main_loop 1 m w = None
       \<and> map_option trace (SSMManager_main_loop 2 m w) =
           Some [Get \<lparr>get_Path = ''/app/test/'', get_Recursive = False,
                      get_WithDecryption = True, get_NextToken = None\<rparr>,
                 Log ''Error: error prompting for action: ^C'',
                 Get \<lparr>get_Path = ''/app/test/'', get_Recursive = False,
                      get_WithDecryption = True, get_NextToken = None\<rparr>])"
  by (simp add: world_calls SSMManager_defs Let_def numeral_2_eq_2)

section \<open>The name and the kind an edit sends\<close>

lemma Split_tl: "tl (Split (xs @ c # zs) c) \<noteq> []"
proof (induction xs)
  case Nil
  then show ?case by (cases zs) (auto split: list.splits)
next
  case (Cons x xs)
  then show ?case by (cases "Split (xs @ c # zs) c") auto
qed

lemma Split_no_sep: "c \<notin> set s \<Longrightarrow> Split s c = [s]"
  by (induction s) auto

lemma last_Split: "c \<notin> set leaf \<Longrightarrow> last (Split (xs @ c # leaf) c) = leaf"
proof (induction xs)
  case Nil
  then show ?case by (simp add: Split_no_sep)
next
  case (Cons x xs)
  from Split_tl [of xs c leaf] obtain y ys where "Split (xs @ c # leaf) c = y # ys" "ys \<noteq> []"
    by (cases "Split (xs @ c # leaf) c") auto
  with Cons show ?case by auto
qed

lemma Index_key:
  "CHR '' '' \<notin> set key \<Longrightarrow> Index (key @ '' = '' @ v) '' = '' = Some (length key)"
  by (induction key) auto

lemma SplitN2_key:
  "CHR '' '' \<notin> set key \<Longrightarrow> hd (SplitN2 (key @ '' = '' @ v) '' = '') = key"
  using Index_key [of key v] by (simp add: SplitN2_def)

lemma Select_Run_pick:
  assumes "Select_Run items w1 = (Inr (index, result), w2)"
  shows "index < length items \<and> items ! index = result"
  using assms unfolding Select_Run_def next_key_def
  by (auto split: list.split_asm key.split_asm if_split_asm)

text \<open>In \<open>part_001\<close>, when every name of the listing is the prefix, which ends in \<open>/\<close>,
  followed by a key with no \<open>/\<close> and no space, the edit of the entry picked in the menu
  sends the name and the kind of that entry. \<open>SSMManager.updateParameter\<close> sends the name
  and the kind of the entry it finds by name (lemma \<open>SSMManager_updateParameter_effect\<close>).\<close>

lemma main_edit_sends_selected:
  assumes sel: "Select_Run (''Create new variable'' # formatParameters params secureFlag) w1
                 = (Inr (index, result), w2)"
    and nz: "index \<noteq> 0"
    and wf: "\<forall>p \<in> set params. \<exists>leaf. Name p = (pre @ ''/'') @ leaf
               \<and> CHR ''/'' \<notin> set leaf \<and> CHR '' '' \<notin> set leaf"
    and ed: "main_edit (pre @ ''/'') debugFlag secureFlag latestParam params index result w2
               = (c, l', w')"
    and wr: "puts_of (trace w') = puts_of (trace w2) @ [req]"
  shows "index - 1 < length params
         \<and> result = formatParameters params secureFlag ! (index - 1)
         \<and> put_Name req = Name (params ! (index - 1))
         \<and> put_Type req = Type (params ! (index - 1))
         \<and> put_Overwrite req"
proof -
  let ?fmt = "formatParameters params secureFlag"
  from Select_Run_pick [OF sel]
  have idx: "index < length (''Create new variable'' # ?fmt)"
      "(''Create new variable'' # ?fmt) ! index = result" by blast+
  from nz obtain k where k: "index = Suc k" by (cases index) auto
  with idx have in_range: "index - 1 < length params" and line: "result = ?fmt ! (index - 1)"
    by (simp_all add: formatParameters_length)
  let ?p = "params ! (index - 1)"
  from in_range have "?p \<in> set params" by simp
  with wf obtain leaf where leaf: "Name ?p = (pre @ ''/'') @ leaf"
      "CHR ''/'' \<notin> set leaf" "CHR '' '' \<notin> set leaf"
    by blast
  let ?shown = "if secureFlag \<and> Type ?p = ''SecureString'' then ''******'' else Value ?p"
  have seg: "last (Split (Name ?p) CHR ''/'') = leaf"
    using last_Split [of "CHR ''/''" leaf pre] leaf(1,2) by simp
  from line in_range
  have "result = last (Split (Name ?p) CHR ''/'') @ '' = '' @ ?shown"
    by (simp only: formatParameters_nth)
  then have res: "result = leaf @ '' = '' @ ?shown"
    by (simp only: seg)
  have key: "hd (SplitN2 result '' = '') = leaf"
    unfolding res by (rule SplitN2_key [OF leaf(3)])
  from main_edit_effect [OF ed] obtain evs where
    t: "trace w' = trace w2 @ evs" and
    d: "(puts_of evs = [] \<and> l' = latestParam \<and> store w' = store w2 \<and> faults w' = faults w2)
      \<or> (\<exists>r. puts_of evs = [r] \<and> put_Overwrite r \<and> c = Continue
             \<and> put_Name r = (pre @ ''/'') @ hd (SplitN2 result '' = '')
             \<and> put_Type r = Type (params ! (index - 1))
             \<and> index - 1 < length params)"
    by blast
  from t wr have "puts_of evs = [req]" by (simp add: puts_of_append)
  with d key leaf(1) have "put_Overwrite req \<and> put_Name req = Name ?p \<and> put_Type req = Type ?p"
    by auto
  with in_range line show ?thesis by simp
qed

text \<open>
  C10. In the second program of \<open>src/main.go\<close>, \<open>updateParameter\<close> sends the kind
  \<open>SecureString\<close> whatever the kind of the entry is. Editing \<open>/app/test/A\<close>, of kind
  \<open>String\<close>, sends a request of kind \<open>SecureString\<close>, and the store then holds the entry
  with that kind.
\<close>

theorem basic_edit_forces_SecureString:
  "(let w = \<lparr>responses = [Inr ([\<lparr>Name = ''/app/test/A'', Value = ''1'', Type = ''String''\<rparr>],
                              None)],
             store = [''/app/test/A'' \<mapsto> (''1'', ''String'')], faults = [],
             rl_fault = None, keys = [Pick 0, Enter ''2''], trace = []\<rparr>;
        (c, w') = basic_main_iteration ''/app/test/'' w
    in c = Continue
       \<and> puts_of (trace w') = [\<lparr>put_Name = ''/app/test/A'', put_Value = ''2'',
                                 put_Type = ''SecureString'', put_Overwrite = True\<rparr>]
       \<and> store w ''/app/test/A'' = Some (''1'', ''String'')
       \<and> store w' ''/app/test/A'' = Some (''2'', ''SecureString''))"
  by (simp add: world_calls basic_main_iteration_def main_select_def basic_updateParameter_def main_defs Let_def)

end
